theory Spec2Isabelle
  imports Main "HOL-Library.Char_ord" "HOL-Library.List_Lexorder"
begin


section \<open>Key hashing (utils.ts)\<close>

text \<open>
  JavaScript values as far as \<open>JSON.stringify\<close> and \<open>isPlainObject\<close> distinguish them.
  Values are data: an object is an ordinary object with its prototype, which is
  \<open>Object.prototype\<close> (an object literal, a parsed JSON object), nothing
  (\<open>Object.create(null)\<close>) or the prototype of a class, and its own enumerable
  string-keyed data properties in the order \<open>Object.keys\<close> lists them. No property
  holds a function, so no object has a \<open>toJSON\<close> method, and a class prototype defines
  no property that is read here. Numbers are integers of magnitude below \<open>2^53\<close>, which
  \<open>JSON.stringify\<close> prints in full; strings are byte strings.
\<close>

datatype proto = ObjectPrototype | NullPrototype | ClassPrototype

datatype jsval =
    JUndefined
  | JNull
  | JBool bool
  | JNum int
  | JStr string
  | JArr "jsval list"
  | JObj proto "(string \<times> jsval) list"

datatype jserror = TypeError

text \<open>\<open>val[key]\<close> for an own property: the property, or \<open>undefined\<close>.\<close>

definition valueAt :: "(string \<times> jsval) list \<Rightarrow> string \<Rightarrow> jsval" where
  "valueAt props k = (case map_of props k of None \<Rightarrow> JUndefined | Some v \<Rightarrow> v)"

text \<open>
  \<open>hasObjectPrototype\<close>: \<open>Object.prototype.toString.call(o) === '[object Object]'\<close>,
  which holds of the ordinary objects and of nothing else.
\<close>

fun hasObjectPrototype :: "jsval \<Rightarrow> bool" where
  "hasObjectPrototype (JObj p props) = True"
| "hasObjectPrototype v = False"

text \<open>
  \<open>o.constructor\<close>: the own property if there is one, and otherwise the inherited one,
  which is the function \<open>Object\<close> under \<open>Object.prototype\<close>, the class under a class
  prototype, and \<open>undefined\<close> without a prototype.
\<close>

datatype ctor = CtorValue jsval | CtorObject | CtorClass

definition constructorOf :: "proto \<Rightarrow> (string \<times> jsval) list \<Rightarrow> ctor" where
  "constructorOf p props =
     (case map_of props ''constructor'' of
        Some v \<Rightarrow> CtorValue v
      | None \<Rightarrow>
          (case p of
             ObjectPrototype \<Rightarrow> CtorObject
           | ClassPrototype \<Rightarrow> CtorClass
           | NullPrototype \<Rightarrow> CtorValue JUndefined))"

text \<open>
  \<open>prot.hasOwnProperty('isPrototypeOf')\<close> for an ordinary object \<open>prot\<close>: the method is
  the inherited one unless the object has a property \<open>hasOwnProperty\<close> of its own, which
  is no function, or has no prototype to inherit it from; calling what is no function is
  a \<open>TypeError\<close>.
\<close>

definition hasOwnIsPrototypeOf :: "proto \<Rightarrow> (string \<times> jsval) list \<Rightarrow> jserror + bool" where
  "hasOwnIsPrototypeOf p props =
     (if ''hasOwnProperty'' \<in> set (map fst props) \<or> p = NullPrototype then Inl TypeError
      else Inr (''isPrototypeOf'' \<in> set (map fst props)))"

text \<open>
  \<open>isPlainObject\<close> of utils.ts. \<open>ctor.prototype\<close> is a \<open>TypeError\<close> when \<open>ctor\<close> is
  \<open>null\<close>, \<open>undefined\<close> when \<open>ctor\<close> is a primitive or an array, the own property
  \<open>prototype\<close> when \<open>ctor\<close> is an object, \<open>Object.prototype\<close> (which has
  \<open>isPrototypeOf\<close>) for \<open>Object\<close>, and the class prototype (which has not) for a class.
\<close>

fun isPlainObject :: "jsval \<Rightarrow> jserror + bool" where
  "isPlainObject (JObj p props) =
     (case constructorOf p props of
        CtorObject \<Rightarrow> Inr True
      | CtorClass \<Rightarrow> Inr False
      | CtorValue JUndefined \<Rightarrow> Inr True
      | CtorValue JNull \<Rightarrow> Inl TypeError
      | CtorValue (JObj p' props') \<Rightarrow>
          (case valueAt props' ''prototype'' of
             JObj p'' props'' \<Rightarrow> hasOwnIsPrototypeOf p'' props''
           | prot \<Rightarrow> Inr False)
      | CtorValue c \<Rightarrow> Inr False)"
| "isPlainObject v = Inr False"

text \<open>
  The order in which an ordinary object lists keys that were added to it in the given
  order: array indices (canonical decimal strings below \<open>2^32 - 1\<close>) first, ascending,
  then all other keys as added.
\<close>

definition isDigit :: "char \<Rightarrow> bool" where
  "isDigit c = (CHR ''0'' \<le> c \<and> c \<le> CHR ''9'')"

definition intOfDigits :: "string \<Rightarrow> int" where
  "intOfDigits ds = foldl (\<lambda>n c. 10 * n + (of_char c - 48)) 0 ds"

definition isArrayIndex :: "string \<Rightarrow> bool" where
  "isArrayIndex k =
     (k \<noteq> [] \<and> list_all isDigit k \<and> (k = ''0'' \<or> hd k \<noteq> CHR ''0'')
      \<and> intOfDigits k < 4294967295)"

definition ownKeysOrder :: "string list \<Rightarrow> string list" where
  "ownKeysOrder ks =
     sort_key intOfDigits (filter isArrayIndex ks) @ filter (\<lambda>k. \<not> isArrayIndex k) ks"

text \<open>
  \<open>Object.keys(val).sort().reduce((result, key) => { result[key] = val[key]; return
  result }, {})\<close>. \<open>sort()\<close> without a comparator orders strings by code unit. The
  assignment \<open>result['__proto__'] = ...\<close> reaches the prototype setter and adds no own
  property; every other assignment adds the property to \<open>result\<close>.
\<close>

definition sortedCopy :: "(string \<times> jsval) list \<Rightarrow> jsval" where
  "sortedCopy props =
     JObj ObjectPrototype
       (map (\<lambda>k. (k, valueAt props k))
          (ownKeysOrder (filter (\<lambda>k. k \<noteq> ''__proto__'') (sort (map fst props)))))"

text \<open>
  The replacer function of \<open>hashKey\<close>:
  \<open>(_, val) => isPlainObject(val) ? (the sorted copy) : val\<close>.
\<close>

fun replacer :: "jsval \<Rightarrow> jserror + jsval" where
  "replacer (JObj p props) =
     (case isPlainObject (JObj p props) of
        Inl e \<Rightarrow> Inl e
      | Inr plain \<Rightarrow> Inr (if plain then sortedCopy props else JObj p props))"
| "replacer v = Inr v"

text \<open>\<open>QuoteJSONString\<close> and the decimal form of an integer.\<close>

definition hexDigit :: "nat \<Rightarrow> char" where
  "hexDigit n = (if n < 10 then char_of (48 + n) else char_of (87 + n))"

definition escapeChar :: "char \<Rightarrow> string" where
  "escapeChar c =
     (let n = (of_char c :: nat) in
      if n = 0x22 then [CHR 0x5C, CHR 0x22]
      else if n = 0x5C then [CHR 0x5C, CHR 0x5C]
      else if n = 8 then [CHR 0x5C, CHR ''b'']
      else if n = 9 then [CHR 0x5C, CHR ''t'']
      else if n = 10 then [CHR 0x5C, CHR ''n'']
      else if n = 12 then [CHR 0x5C, CHR ''f'']
      else if n = 13 then [CHR 0x5C, CHR ''r'']
      else if n < 32 then [CHR 0x5C, CHR ''u'', CHR ''0'', CHR ''0'', hexDigit (n div 16), hexDigit (n mod 16)]
      else [c])"

definition quoteJSON :: "string \<Rightarrow> string" where
  "quoteJSON s = [CHR 0x22] @ concat (map escapeChar s) @ [CHR 0x22]"

function showNat :: "nat \<Rightarrow> string" where
  "showNat n = (if n < 10 then [char_of (48 + n)] else showNat (n div 10) @ [char_of (48 + n mod 10)])"
  by pat_completeness auto
termination
  by (relation "measure id") auto

definition showInt :: "int \<Rightarrow> string" where
  "showInt i = (if i < 0 then CHR ''-'' # showNat (nat (- i)) else showNat (nat i))"

fun joinWith :: "string \<Rightarrow> string list \<Rightarrow> string" where
  "joinWith sep [] = []"
| "joinWith sep [x] = x"
| "joinWith sep (x # y # ys) = x @ sep @ joinWith sep (y # ys)"

text \<open>The results of a sequence of steps, or the first exception.\<close>

fun collect :: "(jserror + 'a) list \<Rightarrow> jserror + 'a list" where
  "collect [] = Inr []"
| "collect (Inl e # rest) = Inl e"
| "collect (Inr x # rest) = (case collect rest of Inl e \<Rightarrow> Inl e | Inr xs \<Rightarrow> Inr (x # xs))"

text \<open>
  \<open>JSON.stringify(value, replacer)\<close> without indentation: \<open>SerializeJSONProperty\<close> for
  a value already read from its holder. The replacer is applied first, and what it
  throws ends the serialization; \<open>undefined\<close> yields no text, which drops the member of
  an object and becomes \<open>null\<close> in an array.
\<close>

function stringify :: "jsval \<Rightarrow> jserror + string option" where
  "stringify v =
     (case replacer v of
        Inl e \<Rightarrow> Inl e
      | Inr JUndefined \<Rightarrow> Inr None
      | Inr JNull \<Rightarrow> Inr (Some ''null'')
      | Inr (JBool b) \<Rightarrow> Inr (Some (if b then ''true'' else ''false''))
      | Inr (JNum i) \<Rightarrow> Inr (Some (showInt i))
      | Inr (JStr s) \<Rightarrow> Inr (Some (quoteJSON s))
      | Inr (JArr xs) \<Rightarrow>
          (case collect (map stringify xs) of
             Inl e \<Rightarrow> Inl e
           | Inr ts \<Rightarrow>
               Inr (Some (''['' @ joinWith '','' (map (\<lambda>t. case t of None \<Rightarrow> ''null'' | Some u \<Rightarrow> u) ts)
                          @ '']'')))
      | Inr (JObj p props) \<Rightarrow>
          (case collect (map (\<lambda>(k, x). case stringify x of Inl e \<Rightarrow> Inl e | Inr t \<Rightarrow> Inr (k, t))
                           props) of
             Inl e \<Rightarrow> Inl e
           | Inr kts \<Rightarrow>
               Inr (Some (''{'' @ joinWith '',''
                            (concat (map (\<lambda>(k, t). case t of None \<Rightarrow> []
                                                   | Some u \<Rightarrow> [quoteJSON k @ '':'' @ u]) kts))
                          @ ''}''))))"
  by pat_completeness auto
termination
proof (relation "measure size")
  show "wf (measure size)" by simp
next
  fix v :: jsval and r xs x
  assume "replacer v = Inr r" and "r = JArr xs" and "x \<in> set xs"
  then have "v = JArr xs"
    by (cases v) (auto simp: sortedCopy_def split: if_splits sum.splits)
  with \<open>x \<in> set xs\<close> show "(x, v) \<in> measure size"
    by (auto simp: less_Suc_eq_le size_list_estimation')
next
  fix v :: jsval and r p props kx k x
  assume r: "replacer v = Inr r" "r = JObj p props" and m: "kx \<in> set props" and kx: "(k, x) = kx"
  have sub: "(k, y) \<in> set ps \<Longrightarrow> size y < size (JObj b ps)" for y b ps
  proof -
    assume "(k, y) \<in> set ps"
    then have "size_prod (\<lambda>_. 0) size (k, y) \<le> size_list (size_prod (\<lambda>_. 0) size) ps"
      by (rule size_list_estimation') simp
    then show ?thesis by simp
  qed
  from r obtain b ps where v: "v = JObj b ps" by (cases v) auto
  from r v obtain plain where pl: "isPlainObject (JObj b ps) = Inr plain"
    by (cases "isPlainObject (JObj b ps)") auto
  show "(x, v) \<in> measure size"
  proof (cases plain)
    case False
    with r v pl m kx have "(k, x) \<in> set ps" by auto
    from sub [OF this] show ?thesis using v by simp
  next
    case True
    with r v pl m kx have "x = valueAt ps k" and "k \<in> set (map fst ps)"
      by (auto simp: sortedCopy_def ownKeysOrder_def)
    then obtain y where "map_of ps k = Some y" "x = y"
      by (cases "map_of ps k") (auto simp: valueAt_def map_of_eq_None_iff)
    then have "(k, x) \<in> set ps" by (auto dest: map_of_SomeD)
    from sub [OF this] show ?thesis using v by simp
  qed
qed

declare stringify.simps [simp del]

text \<open>\<open>getFullKey\<close> and \<open>hashKey\<close>.\<close>

definition getFullKey :: "string \<Rightarrow> jsval \<Rightarrow> jsval" where
  "getFullKey k variables =
     (if variables = JUndefined then JArr [JStr k] else JArr [JStr k, variables])"

definition hashKey :: "jsval \<Rightarrow> jserror + string option" where
  "hashKey fullKey = stringify fullKey"

text \<open>
  Two values are equal up to reordering of plain-object keys: they are the same, or
  arrays of pairwise such values, or objects that are not plain, have the same prototype
  and the same keys in the same order and such values, or plain objects with the same
  set of keys and such values under each key. Plain is what \<open>isPlainObject\<close> says.
\<close>

inductive reorderEq :: "jsval \<Rightarrow> jsval \<Rightarrow> bool" where
  same: "reorderEq v v"
| arrays: "list_all2 reorderEq xs ys \<Longrightarrow> reorderEq (JArr xs) (JArr ys)"
| nonPlain:
    "isPlainObject (JObj p props) = Inr False \<Longrightarrow> isPlainObject (JObj p props') = Inr False \<Longrightarrow>
     list_all2 (\<lambda>q q'. fst q = fst q' \<and> reorderEq (snd q) (snd q')) props props' \<Longrightarrow>
     reorderEq (JObj p props) (JObj p props')"
| plain:
    "isPlainObject (JObj p props) = Inr True \<Longrightarrow> isPlainObject (JObj p' props') = Inr True \<Longrightarrow>
     distinct (map fst props) \<Longrightarrow> distinct (map fst props') \<Longrightarrow>
     set (map fst props) = set (map fst props') \<Longrightarrow>
     (\<forall>k. k \<in> set (map fst props) \<longrightarrow> reorderEq (valueAt props k) (valueAt props' k)) \<Longrightarrow>
     reorderEq (JObj p props) (JObj p' props')"

definition objBA :: jsval where
  "objBA = JObj ObjectPrototype
     [(''b'', JNum 2), (''a'', JObj ObjectPrototype [(''y'', JNull), (''x'', JArr [JBool True])])]"

definition objAB :: jsval where
  "objAB = JObj ObjectPrototype
     [(''a'', JObj ObjectPrototype [(''x'', JArr [JBool True]), (''y'', JNull)]), (''b'', JNum 2)]"

text \<open>
  The object literals \<open>{constructor: 1, a: 2}\<close>, \<open>{a: 2, constructor: 1}\<close> and
  \<open>{constructor: null}\<close>.
\<close>

definition objCA :: jsval where
  "objCA = JObj ObjectPrototype [(''constructor'', JNum 1), (''a'', JNum 2)]"

definition objAC :: jsval where
  "objAC = JObj ObjectPrototype [(''a'', JNum 2), (''constructor'', JNum 1)]"

definition objCNull :: jsval where
  "objCNull = JObj ObjectPrototype [(''constructor'', JNull)]"

section \<open>Environment: connectivity, focus, clock\<close>

text \<open>
  The engine reads three process-wide facts: \<open>onlineManager.isOnline()\<close>,
  \<open>focusManager.isFocused()\<close> and \<open>Date.now()\<close>, and the constant \<open>isServer\<close>.
  They are passed explicitly to every operation that reads them.
\<close>

record Env =
  isOnline :: bool
  isFocused :: bool
  isServer :: bool
  now :: int

datatype NetworkMode = online | always | offlineFirst

text \<open>\<open>canFetch\<close> of retryer.ts: \<open>(networkMode ?? 'online') === 'online' ? isOnline() : true\<close>.\<close>

definition canFetch :: "Env \<Rightarrow> NetworkMode option \<Rightarrow> bool" where
  "canFetch env networkMode =
     (if (case networkMode of None \<Rightarrow> online | Some m \<Rightarrow> m) = online
      then isOnline env else True)"

section \<open>Errors\<close>

text \<open>
  An error value is either a \<open>CancelledError\<close> with its two flags (an absent flag is
  falsy, so it is \<open>False\<close> here) or any other value thrown by caller code.
\<close>

datatype 'e Thrown =
    CancelledError (revert: bool) (silent: bool)
  | Failure 'e
  | UndefinedDataError

fun isCancelledError :: "'e Thrown \<Rightarrow> bool" where
  "isCancelledError (CancelledError r s) = True"
| "isCancelledError (Failure e) = False"
| "isCancelledError UndefinedDataError = False"

text \<open>\<open>CancelOptions\<close> and \<open>new CancelledError(options)\<close>.\<close>

record CancelOptions =
  co_revert :: bool
  co_silent :: bool

definition newCancelledError :: "CancelOptions option \<Rightarrow> 'e Thrown" where
  "newCancelledError opts =
     (case opts of None \<Rightarrow> CancelledError False False
      | Some c \<Rightarrow> CancelledError (co_revert c) (co_silent c))"

section \<open>Retryer (retryer.ts)\<close>

text \<open>
  The retry option is \<open>boolean | number | (failureCount, error) => boolean\<close>, the delay
  option \<open>number | (failureCount, error) => number\<close>.
\<close>

datatype 'e RetryValue = RetryBool bool | RetryCount int | RetryFn "nat \<Rightarrow> 'e Thrown \<Rightarrow> bool"

datatype 'e RetryDelayValue = DelayMs int | DelayFn "nat \<Rightarrow> 'e Thrown \<Rightarrow> int"

record 'e RetryerConfig =
  c_retry :: "'e RetryValue option"
  c_retryDelay :: "'e RetryDelayValue option"
  c_networkMode :: "NetworkMode option"

text \<open>
  What the pause promise continues with once \<open>continueFn\<close> lets it through: the first
  \<open>run()\<close> (\<open>pause().then(run)\<close>), or the decision after a retry delay, which still
  holds the error of the failed attempt.
\<close>

datatype 'e Continuation = ThenRun | ThenRetry "'e Thrown"

text \<open>
  The mutable variables of one \<open>createRetryer\<close> closure. \<open>continueFn\<close> is \<open>None\<close>
  for \<open>undefined\<close>. \<open>r_promise\<close> names the promise the retryer returns.
\<close>

record 'e Retryer =
  isRetryCancelled :: bool
  failureCount :: nat
  isResolved :: bool
  continueFn :: "'e Continuation option"
  r_promise :: nat

text \<open>
  What a retryer does to the outside, in the order it does it: calls of \<open>config.fn\<close>,
  of the four callbacks and of \<open>config.abort\<close>, settling its promise, and starting
  the \<open>sleep(delay)\<close> after which the retry decision for the given error is taken.
\<close>

datatype ('d, 'e) Effect =
    CallFn
  | CallOnSuccess "'d option"
  | CallOnError "'e Thrown"
  | CallOnPause
  | CallOnContinue
  | CallAbort
  | PromiseResolve nat "'d option"
  | PromiseReject nat "'e Thrown"
  | Sleep int "'e Thrown"

definition defaultRetryDelay :: "nat \<Rightarrow> int" where
  "defaultRetryDelay n = min (1000 * 2 ^ n) 30000"

definition cancelRetry :: "'e Retryer \<Rightarrow> 'e Retryer" where
  "cancelRetry r = r\<lparr>isRetryCancelled := True\<rparr>"

definition continueRetry :: "'e Retryer \<Rightarrow> 'e Retryer" where
  "continueRetry r = r\<lparr>isRetryCancelled := False\<rparr>"

definition shouldPause :: "Env \<Rightarrow> 'e RetryerConfig \<Rightarrow> bool" where
  "shouldPause env config =
     (\<not> isFocused env \<or> (c_networkMode config \<noteq> Some always \<and> \<not> isOnline env))"

text \<open>
  \<open>resolve\<close> and \<open>reject\<close>. A pending \<open>continueFn\<close> is called after the callback;
  \<open>isResolved\<close> is already set, so it lets the pause promise through, whose
  continuation clears \<open>continueFn\<close> and then finds the retryer resolved.
\<close>

definition resolve :: "'d option \<Rightarrow> 'e Retryer \<Rightarrow> 'e Retryer \<times> ('d, 'e) Effect list" where
  "resolve v r =
     (if \<not> isResolved r
      then (r\<lparr>isResolved := True, continueFn := None\<rparr>,
            [CallOnSuccess v, PromiseResolve (r_promise r) v])
      else (r, []))"

definition reject :: "'e Thrown \<Rightarrow> 'e Retryer \<Rightarrow> 'e Retryer \<times> ('d, 'e) Effect list" where
  "reject v r =
     (if \<not> isResolved r
      then (r\<lparr>isResolved := True, continueFn := None\<rparr>,
            [CallOnError v, PromiseReject (r_promise r) v])
      else (r, []))"

definition retryer_cancel ::
  "CancelOptions option \<Rightarrow> 'e Retryer \<Rightarrow> 'e Retryer \<times> ('d, 'e) Effect list" where
  "retryer_cancel cancelOptions r =
     (if \<not> isResolved r
      then (let (r', effs) = reject (newCancelledError cancelOptions) r in (r', effs @ [CallAbort]))
      else (r, []))"

definition pause :: "'e Continuation \<Rightarrow> 'e Retryer \<Rightarrow> 'e Retryer \<times> ('d, 'e) Effect list" where
  "pause k r = (r\<lparr>continueFn := Some k\<rparr>, [CallOnPause])"

text \<open>\<open>run\<close> up to the call of \<open>config.fn\<close>; its outcome arrives later.\<close>

definition run :: "'e Retryer \<Rightarrow> 'e Retryer \<times> ('d, 'e) Effect list" where
  "run r = (if isResolved r then (r, []) else (r, [CallFn]))"

text \<open>The \<open>.catch\<close> handler of \<open>run\<close>: the attempt failed with \<open>error\<close>.\<close>

definition shouldRetry :: "Env \<Rightarrow> 'e RetryerConfig \<Rightarrow> nat \<Rightarrow> 'e Thrown \<Rightarrow> bool" where
  "shouldRetry env config n err =
     (case (case c_retry config of None \<Rightarrow> RetryCount (if isServer env then 0 else 3)
            | Some v \<Rightarrow> v) of
        RetryBool b \<Rightarrow> b
      | RetryCount k \<Rightarrow> int n < k
      | RetryFn f \<Rightarrow> f n err)"

definition retryDelayOf :: "'e RetryerConfig \<Rightarrow> nat \<Rightarrow> 'e Thrown \<Rightarrow> int" where
  "retryDelayOf config n err =
     (case c_retryDelay config of
        None \<Rightarrow> defaultRetryDelay n
      | Some (DelayFn f) \<Rightarrow> f n err
      | Some (DelayMs d) \<Rightarrow> d)"

definition onRejected ::
  "Env \<Rightarrow> 'e RetryerConfig \<Rightarrow> 'e Thrown \<Rightarrow> 'e Retryer \<Rightarrow> 'e Retryer \<times> ('d, 'e) Effect list" where
  "onRejected env config err r =
     (if isResolved r then (r, [])
      else
        let delay = retryDelayOf config (failureCount r) err in
        if isRetryCancelled r \<or> \<not> shouldRetry env config (failureCount r) err
        then reject err r
        else (r\<lparr>failureCount := Suc (failureCount r)\<rparr>, [Sleep delay err]))"

text \<open>The last \<open>.then\<close> after the delay (and after a pause, if there was one).\<close>

definition retryOrReject :: "'e Thrown \<Rightarrow> 'e Retryer \<Rightarrow> 'e Retryer \<times> ('d, 'e) Effect list" where
  "retryOrReject err r = (if isRetryCancelled r then reject err r else run r)"

text \<open>The delay has elapsed: pause if needed, else decide at once.\<close>

definition afterSleep ::
  "Env \<Rightarrow> 'e RetryerConfig \<Rightarrow> 'e Thrown \<Rightarrow> 'e Retryer \<Rightarrow> 'e Retryer \<times> ('d, 'e) Effect list" where
  "afterSleep env config err r =
     (if shouldPause env config then pause (ThenRetry err) r else retryOrReject err r)"

text \<open>
  \<open>continue\<close>: call \<open>continueFn\<close> if there is one. When it lets the pause promise
  through, \<open>continueFn\<close> is cleared, \<open>onContinue\<close> is called unless resolved, and the
  continuation runs.
\<close>

definition retryer_continue ::
  "Env \<Rightarrow> 'e RetryerConfig \<Rightarrow> 'e Retryer \<Rightarrow> 'e Retryer \<times> ('d, 'e) Effect list" where
  "retryer_continue env config r =
     (case continueFn r of
        None \<Rightarrow> (r, [])
      | Some k \<Rightarrow>
          if isResolved r \<or> \<not> shouldPause env config
          then
            (let r1 = r\<lparr>continueFn := None\<rparr>;
                 effs1 = (if \<not> isResolved r1 then [CallOnContinue] else []);
                 (r2, effs2) = (case k of ThenRun \<Rightarrow> run r1 | ThenRetry err \<Rightarrow> retryOrReject err r1)
             in (r2, effs1 @ effs2))
          else (r, []))"

text \<open>The body of \<open>createRetryer\<close>; \<open>pid\<close> names the new promise.\<close>

definition createRetryer ::
  "Env \<Rightarrow> 'e RetryerConfig \<Rightarrow> nat \<Rightarrow> 'e Retryer \<times> ('d, 'e) Effect list" where
  "createRetryer env config pid =
     (let r = \<lparr>isRetryCancelled = False, failureCount = 0, isResolved = False,
                 continueFn = None, r_promise = pid\<rparr>
      in if canFetch env (c_networkMode config) then run r else pause ThenRun r)"

section \<open>QueryInfo: state and reducer (queryInfo.ts)\<close>

datatype QueryStatus = Pending | Error | Success

datatype FetchStatus = Fetching | Paused | Idle

text \<open>
  \<open>QueryInfoState\<close>. \<open>data\<close> is \<open>None\<close> for \<open>undefined\<close>, \<open>error\<close> and \<open>fetchMeta\<close> are
  \<open>None\<close> for \<open>null\<close>. Timestamps are numbers; \<open>!state.dataUpdatedAt\<close> is \<open>dataUpdatedAt = 0\<close>.
\<close>

record ('d, 'e, 'm) QueryInfoState =
  data :: "'d option"
  dataUpdatedAt :: int
  error :: "'e Thrown option"
  errorUpdatedAt :: int
  fetchMeta :: "'m option"
  isInvalidated :: bool
  status :: QueryStatus
  fetchStatus :: FetchStatus

text \<open>\<open>Partial<QueryInfoState>\<close>: every field may be absent.\<close>

record ('d, 'e, 'm) PartialState =
  p_data :: "'d option option"
  p_dataUpdatedAt :: "int option"
  p_error :: "'e Thrown option option"
  p_errorUpdatedAt :: "int option"
  p_fetchMeta :: "'m option option"
  p_isInvalidated :: "bool option"
  p_status :: "QueryStatus option"
  p_fetchStatus :: "FetchStatus option"

datatype ('d, 'e, 'm) Action =
    ContinueAction
  | ErrorAction "'e Thrown"
  | FetchAction "'m option"
  | InvalidateAction
  | PauseAction
  | SetStateAction "('d, 'e, 'm) PartialState"
  | SuccessAction "'d option" "int option" bool

text \<open>The object spread \<open>{...state, ...action.state}\<close> of the \<open>setState\<close> case.\<close>

definition spreadState ::
  "('d, 'e, 'm) QueryInfoState \<Rightarrow> ('d, 'e, 'm) PartialState \<Rightarrow> ('d, 'e, 'm) QueryInfoState" where
  "spreadState s p =
     \<lparr> data = (case p_data p of None \<Rightarrow> data s | Some v \<Rightarrow> v),
       dataUpdatedAt = (case p_dataUpdatedAt p of None \<Rightarrow> dataUpdatedAt s | Some v \<Rightarrow> v),
       error = (case p_error p of None \<Rightarrow> error s | Some v \<Rightarrow> v),
       errorUpdatedAt = (case p_errorUpdatedAt p of None \<Rightarrow> errorUpdatedAt s | Some v \<Rightarrow> v),
       fetchMeta = (case p_fetchMeta p of None \<Rightarrow> fetchMeta s | Some v \<Rightarrow> v),
       isInvalidated = (case p_isInvalidated p of None \<Rightarrow> isInvalidated s | Some v \<Rightarrow> v),
       status = (case p_status p of None \<Rightarrow> status s | Some v \<Rightarrow> v),
       fetchStatus = (case p_fetchStatus p of None \<Rightarrow> fetchStatus s | Some v \<Rightarrow> v) \<rparr>"

text \<open>
  The \<open>reducer\<close> closure of \<open>dispatch\<close>. It reads the enclosing \<open>state\<close>,
  \<open>revertState\<close> (\<open>None\<close> until the first fetch stores a snapshot) and
  \<open>options.networkMode\<close>. The third argument of \<open>SuccessAction\<close> is \<open>manual\<close>
  (absent is falsy).
\<close>

fun reducer ::
  "Env \<Rightarrow> NetworkMode option \<Rightarrow> ('d, 'e, 'm) QueryInfoState option \<Rightarrow>
   ('d, 'e, 'm) QueryInfoState \<Rightarrow> ('d, 'e, 'm) Action \<Rightarrow> ('d, 'e, 'm) QueryInfoState" where
  "reducer env nm revertState state PauseAction = state\<lparr>fetchStatus := Paused\<rparr>"
| "reducer env nm revertState state ContinueAction = state\<lparr>fetchStatus := Fetching\<rparr>"
| "reducer env nm revertState state (FetchAction meta) =
     (let s1 = state\<lparr>fetchMeta := meta,
                      fetchStatus := (if canFetch env nm then Fetching else Paused)\<rparr>
      in if dataUpdatedAt state = 0 then s1\<lparr>error := None, status := Pending\<rparr> else s1)"
| "reducer env nm revertState state (SuccessAction d updatedAt manual) =
     (let s1 = state\<lparr>data := d,
                      dataUpdatedAt := (case updatedAt of None \<Rightarrow> now env | Some t \<Rightarrow> t),
                      error := None,
                      isInvalidated := False,
                      status := Success\<rparr>
      in if \<not> manual then s1\<lparr>fetchStatus := Idle\<rparr> else s1)"
| "reducer env nm revertState state (ErrorAction err) =
     (case (if isCancelledError err \<and> revert err then revertState else None) of
        Some snapshot \<Rightarrow> snapshot
      | None \<Rightarrow> state\<lparr>error := Some err,
                        errorUpdatedAt := now env,
                        fetchStatus := Idle,
                        status := Error\<rparr>)"
| "reducer env nm revertState state InvalidateAction = state\<lparr>isInvalidated := True\<rparr>"
| "reducer env nm revertState state (SetStateAction p) = spreadState state p"


section \<open>QueryInfo: options and initial state\<close>

text \<open>
  \<open>structuralSharing\<close> is \<open>boolean | (oldData, newData) => data\<close>; an updater is a
  value or a function of the previous data.
\<close>

datatype 'd Sharing = SharingBool bool | SharingFn "'d option \<Rightarrow> 'd option \<Rightarrow> 'd option"

datatype 'd Updater = UpdValue "'d option" | UpdFn "'d option \<Rightarrow> 'd option"

text \<open>
  A query descriptor carries its key, the \<open>$inf$\<close> mark and defaults for the options.
  \<open>initialData\<close> and \<open>initialDataUpdatedAt\<close> may be given as functions of no argument;
  the fields hold the value either form yields.
\<close>

record ('d, 'e) PrimitiveQuery =
  key :: string
  inf :: bool
  q_retry :: "'e RetryValue option"
  q_retryDelay :: "'e RetryDelayValue option"
  q_networkMode :: "NetworkMode option"
  q_structuralSharing :: "'d Sharing option"
  q_initialData :: "'d option"
  q_initialDataUpdatedAt :: "int option"
  q_queryKeyHashFn :: "(jsval \<Rightarrow> string) option"
  q_meta :: "jsval option"

text \<open>
  The options of a QueryInfo that the operations below read. \<open>o_variables\<close> is
  \<open>JUndefined\<close> when no variables are given; \<open>queryMeta\<close> is the \<open>meta\<close> option. A field
  holds what reading the property gives, \<open>None\<close> for \<open>undefined\<close>. An options object can
  have a property of its own whose value is \<open>undefined\<close>, which reads like an absent one
  but counts in an object spread: \<open>undefinedProps\<close> names these properties (a name listed
  there counts only if its field holds \<open>None\<close>).
\<close>

datatype OptionName =
    QueryKeyHashFnOption | MetaOption | RetryOption | RetryDelayOption | NetworkModeOption
  | StructuralSharingOption | InitialDataOption | InitialDataUpdatedAtOption

record ('d, 'e) QueryInfoOptions =
  query :: "('d, 'e) PrimitiveQuery"
  o_variables :: jsval
  o_queryHash :: "string option"
  queryKeyHashFn :: "(jsval \<Rightarrow> string) option"
  queryMeta :: "jsval option"
  retry :: "'e RetryValue option"
  retryDelay :: "'e RetryDelayValue option"
  networkMode :: "NetworkMode option"
  structuralSharing :: "'d Sharing option"
  initialData :: "'d option"
  initialDataUpdatedAt :: "int option"
  undefinedProps :: "OptionName list"

text \<open>A property that is absent or defined, spread over a default.\<close>

definition orElse :: "'a option \<Rightarrow> 'a option \<Rightarrow> 'a option" where
  "orElse a b = (case a of None \<Rightarrow> b | Some v \<Rightarrow> Some v)"

text \<open>
  One property of \<open>{...options.query, ...newOptions}\<close>: the property of the new options
  if they have it as their own, be its value \<open>undefined\<close>, and otherwise the one of the
  query descriptor.
\<close>

definition spreadProp :: "OptionName \<Rightarrow> OptionName list \<Rightarrow> 'a option \<Rightarrow> 'a option \<Rightarrow> 'a option" where
  "spreadProp name undefinedNames new dflt =
     (case new of
        Some v \<Rightarrow> Some v
      | None \<Rightarrow> if name \<in> set undefinedNames then None else dflt)"

text \<open>
  \<open>{...options.query, ...newOptions}\<close> of \<open>setOptions\<close>: the properties of the new
  options over the defaults of the query the old options named. A property the query
  descriptor has with value \<open>undefined\<close> reads like one it does not have; the result
  lists as undefined properties those of the new options (the options of an entry are
  never spread again).
\<close>

definition spreadOptions ::
  "('d, 'e) PrimitiveQuery option \<Rightarrow> ('d, 'e) QueryInfoOptions \<Rightarrow> ('d, 'e) QueryInfoOptions" where
  "spreadOptions q newOptions =
     (case q of
        None \<Rightarrow> newOptions
      | Some d \<Rightarrow>
          (let u = undefinedProps newOptions
           in \<lparr> query = query newOptions,
                o_variables = o_variables newOptions,
                o_queryHash = o_queryHash newOptions,
                queryKeyHashFn =
                  spreadProp QueryKeyHashFnOption u (queryKeyHashFn newOptions) (q_queryKeyHashFn d),
                queryMeta = spreadProp MetaOption u (queryMeta newOptions) (q_meta d),
                retry = spreadProp RetryOption u (retry newOptions) (q_retry d),
                retryDelay = spreadProp RetryDelayOption u (retryDelay newOptions) (q_retryDelay d),
                networkMode =
                  spreadProp NetworkModeOption u (networkMode newOptions) (q_networkMode d),
                structuralSharing =
                  spreadProp StructuralSharingOption u (structuralSharing newOptions)
                    (q_structuralSharing d),
                initialData = spreadProp InitialDataOption u (initialData newOptions) (q_initialData d),
                initialDataUpdatedAt =
                  spreadProp InitialDataUpdatedAtOption u (initialDataUpdatedAt newOptions)
                    (q_initialDataUpdatedAt d),
                undefinedProps = u \<rparr>))"

definition getDefaultState :: "Env \<Rightarrow> ('d, 'e) QueryInfoOptions \<Rightarrow> ('d, 'e, 'm) QueryInfoState" where
  "getDefaultState env opts =
     (let d = initialData opts;
          hasData = (d \<noteq> None);
          initialDataUpdatedAt' = (if hasData then initialDataUpdatedAt opts else Some 0)
      in \<lparr> data = d,
           dataUpdatedAt =
             (if hasData
              then (case initialDataUpdatedAt' of None \<Rightarrow> now env | Some t \<Rightarrow> t)
              else 0),
           error = None,
           errorUpdatedAt = 0,
           fetchMeta = None,
           isInvalidated = False,
           status = (if hasData then Success else Pending),
           fetchStatus = Idle \<rparr>)"

section \<open>QueryInfo: the closure of createQueryInfo\<close>

record 'm FetchOptions =
  cancelRefetch :: bool
  meta :: "'m option"

text \<open>
  The variables of one \<open>createQueryInfo\<close> closure. The retryer is kept with the
  configuration it was created with. \<open>fnCalls\<close> counts the calls of the fetch function
  handed to the retryer, \<open>settled\<close> lists the promises settled so far with their outcome,
  \<open>notified\<close> the actions broadcast by \<open>cache.notify\<close> as \<open>updated\<close> events, oldest
  first, and \<open>promiseCount\<close> the promises created (a new promise is named by it).
  The garbage-collection timer, the listener set and the cache-level callbacks are not
  part of this record.
\<close>

record ('d, 'e, 'm) QueryInfo =
  queryHash :: string
  variables :: jsval
  options :: "('d, 'e) QueryInfoOptions"
  state :: "('d, 'e, 'm) QueryInfoState"
  revertState :: "('d, 'e, 'm) QueryInfoState option"
  retryer :: "('e RetryerConfig \<times> 'e Retryer) option"
  promise :: "nat option"
  fnCalls :: nat
  settled :: "(nat \<times> ('e Thrown + 'd option)) list"
  notified :: "('d, 'e, 'm) Action list"
  promiseCount :: nat

definition setOptions ::
  "('d, 'e) QueryInfoOptions \<Rightarrow> ('d, 'e, 'm) QueryInfo \<Rightarrow> ('d, 'e, 'm) QueryInfo" where
  "setOptions newOptions qi =
     qi\<lparr>options := spreadOptions (Some (query (options qi))) newOptions\<rparr>"

text \<open>
  \<open>createQueryInfo(config)\<close>: \<open>options\<close> starts as \<open>{}\<close>, so the first \<open>setOptions\<close>
  finds no query to take defaults from; the state is \<open>config.state\<close> or the default.
\<close>

definition createQueryInfo ::
  "Env \<Rightarrow> string \<Rightarrow> jsval \<Rightarrow> ('d, 'e) QueryInfoOptions \<Rightarrow>
   ('d, 'e, 'm) QueryInfoState option \<Rightarrow> ('d, 'e, 'm) QueryInfo" where
  "createQueryInfo env hash config_variables config_options config_state =
     (let opts = spreadOptions None config_options
      in \<lparr> queryHash = hash,
           variables = config_variables,
           options = opts,
           state = (case config_state of None \<Rightarrow> getDefaultState env opts | Some s \<Rightarrow> s),
           revertState = None,
           retryer = None,
           promise = None,
           fnCalls = 0,
           settled = [],
           notified = [],
           promiseCount = 0 \<rparr>)"

definition dispatch ::
  "Env \<Rightarrow> ('d, 'e, 'm) Action \<Rightarrow> ('d, 'e, 'm) QueryInfo \<Rightarrow> ('d, 'e, 'm) QueryInfo" where
  "dispatch env action qi =
     qi\<lparr>state := reducer env (networkMode (options qi)) (revertState qi) (state qi) action,
        notified := notified qi @ [action]\<rparr>"

definition setState ::
  "Env \<Rightarrow> ('d, 'e, 'm) PartialState \<Rightarrow> ('d, 'e, 'm) QueryInfo \<Rightarrow> ('d, 'e, 'm) QueryInfo" where
  "setState env p qi = dispatch env (SetStateAction p) qi"

definition functionalUpdate :: "'d Updater \<Rightarrow> 'd option \<Rightarrow> 'd option" where
  "functionalUpdate updater input = (case updater of UpdFn f \<Rightarrow> f input | UpdValue v \<Rightarrow> v)"

text \<open>
  \<open>replaceData\<close> of utils.ts. \<open>replaceEqualDeep\<close> is taken as a parameter: it returns
  its first argument or a copy of the second according to reference identity of their
  parts, which the values here do not carry.
\<close>

definition replaceData ::
  "('d option \<Rightarrow> 'd option \<Rightarrow> 'd option) \<Rightarrow> 'd option \<Rightarrow> 'd option \<Rightarrow>
   ('d, 'e, 'z) QueryInfoOptions_scheme \<Rightarrow> 'd option" where
  "replaceData replaceEqualDeep prevData d opts =
     (case structuralSharing opts of
        Some (SharingFn f) \<Rightarrow> f prevData d
      | Some (SharingBool False) \<Rightarrow> d
      | _ \<Rightarrow> replaceEqualDeep prevData d)"

text \<open>
  The inner \<open>setData(updater, {updatedAt, manual})\<close>; the public \<open>queryInfo.setData\<close>
  passes \<open>manual: true\<close>.
\<close>

definition setData' ::
  "('d option \<Rightarrow> 'd option \<Rightarrow> 'd option) \<Rightarrow> Env \<Rightarrow> 'd Updater \<Rightarrow> int option \<Rightarrow> bool \<Rightarrow>
   ('d, 'e, 'm) QueryInfo \<Rightarrow> 'd option \<times> ('d, 'e, 'm) QueryInfo" where
  "setData' red env updater updatedAt manual qi =
     (let newData = functionalUpdate updater (data (state qi));
          d = replaceData red (data (state qi)) newData (options qi)
      in (d, dispatch env (SuccessAction d updatedAt manual) qi))"

definition setData ::
  "('d option \<Rightarrow> 'd option \<Rightarrow> 'd option) \<Rightarrow> Env \<Rightarrow> 'd Updater \<Rightarrow> int option \<Rightarrow>
   ('d, 'e, 'm) QueryInfo \<Rightarrow> 'd option \<times> ('d, 'e, 'm) QueryInfo" where
  "setData red env updater updatedAt qi = setData' red env updater updatedAt True qi"

definition invalidate :: "Env \<Rightarrow> ('d, 'e, 'm) QueryInfo \<Rightarrow> ('d, 'e, 'm) QueryInfo" where
  "invalidate env qi =
     (if \<not> isInvalidated (state qi) then dispatch env InvalidateAction qi else qi)"

text \<open>The \<open>onError\<close> and \<open>onSuccess\<close> callbacks \<open>fetch\<close> hands to the retryer.\<close>

definition onError :: "Env \<Rightarrow> 'e Thrown \<Rightarrow> ('d, 'e, 'm) QueryInfo \<Rightarrow> ('d, 'e, 'm) QueryInfo" where
  "onError env err qi =
     (if \<not> (isCancelledError err \<and> silent err) then dispatch env (ErrorAction err) qi else qi)"

definition onSuccess ::
  "('d option \<Rightarrow> 'd option \<Rightarrow> 'd option) \<Rightarrow> Env \<Rightarrow> 'd option \<Rightarrow>
   ('d, 'e, 'm) QueryInfo \<Rightarrow> ('d, 'e, 'm) QueryInfo" where
  "onSuccess red env d qi =
     (case d of
        None \<Rightarrow> onError env UndefinedDataError qi
      | Some v \<Rightarrow> snd (setData' red env (UpdValue d) None False qi))"

fun applyEffect ::
  "('d option \<Rightarrow> 'd option \<Rightarrow> 'd option) \<Rightarrow> Env \<Rightarrow> ('d, 'e) Effect \<Rightarrow>
   ('d, 'e, 'm) QueryInfo \<Rightarrow> ('d, 'e, 'm) QueryInfo" where
  "applyEffect red env CallFn qi = qi\<lparr>fnCalls := Suc (fnCalls qi)\<rparr>"
| "applyEffect red env (CallOnSuccess v) qi = onSuccess red env v qi"
| "applyEffect red env (CallOnError e) qi = onError env e qi"
| "applyEffect red env CallOnPause qi = dispatch env PauseAction qi"
| "applyEffect red env CallOnContinue qi = dispatch env ContinueAction qi"
| "applyEffect red env CallAbort qi = qi"
| "applyEffect red env (PromiseResolve p v) qi = qi\<lparr>settled := settled qi @ [(p, Inr v)]\<rparr>"
| "applyEffect red env (PromiseReject p e) qi = qi\<lparr>settled := settled qi @ [(p, Inl e)]\<rparr>"
| "applyEffect red env (Sleep d e) qi = qi"

fun applyEffects ::
  "('d option \<Rightarrow> 'd option \<Rightarrow> 'd option) \<Rightarrow> Env \<Rightarrow> ('d, 'e) Effect list \<Rightarrow>
   ('d, 'e, 'm) QueryInfo \<Rightarrow> ('d, 'e, 'm) QueryInfo" where
  "applyEffects red env [] qi = qi"
| "applyEffects red env (eff # effs) qi = applyEffects red env effs (applyEffect red env eff qi)"

text \<open>
  An operation of the current retryer, if there is one: its variables change first, then
  what it did to the outside takes effect in order.
\<close>

definition withRetryer ::
  "('d option \<Rightarrow> 'd option \<Rightarrow> 'd option) \<Rightarrow> Env \<Rightarrow>
   ('e RetryerConfig \<Rightarrow> 'e Retryer \<Rightarrow> 'e Retryer \<times> ('d, 'e) Effect list) \<Rightarrow>
   ('d, 'e, 'm) QueryInfo \<Rightarrow> ('d, 'e, 'm) QueryInfo" where
  "withRetryer red env op qi =
     (case retryer qi of
        None \<Rightarrow> qi
      | Some (config, r) \<Rightarrow>
          (let (r', effs) = op config r
           in applyEffects red env effs (qi\<lparr>retryer := Some (config, r')\<rparr>)))"

definition cancel ::
  "('d option \<Rightarrow> 'd option \<Rightarrow> 'd option) \<Rightarrow> Env \<Rightarrow> CancelOptions option \<Rightarrow>
   ('d, 'e, 'm) QueryInfo \<Rightarrow> ('d, 'e, 'm) QueryInfo" where
  "cancel red env cancelOptions qi = withRetryer red env (\<lambda>config. retryer_cancel cancelOptions) qi"

text \<open>
  \<open>state.fetchMeta !== context.fetchOptions?.meta\<close>: the state holds \<open>null\<close> or a meta
  object, the options \<open>undefined\<close> or a meta object; \<open>null\<close> and \<open>undefined\<close> differ, and
  two objects are compared by identity.
\<close>

definition metaDiffers :: "'m option \<Rightarrow> 'm option \<Rightarrow> bool" where
  "metaDiffers stateMeta optionsMeta =
     (case (stateMeta, optionsMeta) of (Some a, Some b) \<Rightarrow> a \<noteq> b | _ \<Rightarrow> True)"

text \<open>\<open>fetchOptions?.meta\<close> and \<open>fetchOptions?.cancelRefetch\<close> (absent is falsy).\<close>

definition metaOf :: "'m FetchOptions option \<Rightarrow> 'm option" where
  "metaOf fetchOptions = (case fetchOptions of None \<Rightarrow> None | Some fo \<Rightarrow> meta fo)"

definition cancelRefetchOf :: "'m FetchOptions option \<Rightarrow> bool" where
  "cancelRefetchOf fetchOptions =
     (case fetchOptions of None \<Rightarrow> False | Some fo \<Rightarrow> cancelRefetch fo)"

text \<open>\<open>fetch\<close> past the deduplication test: a new retryer and a new promise.\<close>

definition startFetch ::
  "('d option \<Rightarrow> 'd option \<Rightarrow> 'd option) \<Rightarrow> Env \<Rightarrow> ('d, 'e) QueryInfoOptions option \<Rightarrow>
   'm FetchOptions option \<Rightarrow> ('d, 'e, 'm) QueryInfo \<Rightarrow> nat \<times> ('d, 'e, 'm) QueryInfo" where
  "startFetch red env newOptions fetchOptions qi =
     (let qi1 = (case newOptions of None \<Rightarrow> qi | Some no \<Rightarrow> setOptions no qi);
          qi2 = qi1\<lparr>revertState := Some (state qi1)\<rparr>;
          qi3 = (if fetchStatus (state qi2) = Idle
                    \<or> metaDiffers (fetchMeta (state qi2)) (metaOf fetchOptions)
                 then dispatch env (FetchAction (metaOf fetchOptions)) qi2 else qi2);
          config = \<lparr>c_retry = retry (options qi3), c_retryDelay = retryDelay (options qi3),
                    c_networkMode = networkMode (options qi3)\<rparr>;
          pid = promiseCount qi3;
          (r, effs) = createRetryer env config pid;
          qi4 = applyEffects red env effs (qi3\<lparr>promiseCount := Suc pid\<rparr>);
          qi5 = qi4\<lparr>retryer := Some (config, r), promise := Some pid\<rparr>
      in (pid, qi5))"

definition fetch ::
  "('d option \<Rightarrow> 'd option \<Rightarrow> 'd option) \<Rightarrow> Env \<Rightarrow> ('d, 'e) QueryInfoOptions option \<Rightarrow>
   'm FetchOptions option \<Rightarrow> ('d, 'e, 'm) QueryInfo \<Rightarrow> nat \<times> ('d, 'e, 'm) QueryInfo" where
  "fetch red env newOptions fetchOptions qi =
     (if fetchStatus (state qi) \<noteq> Idle
      then
        if dataUpdatedAt (state qi) \<noteq> 0 \<and> cancelRefetchOf fetchOptions
        then startFetch red env newOptions fetchOptions
               (cancel red env (Some \<lparr>co_revert = False, co_silent = True\<rparr>) qi)
        else
          (case promise qi of
             Some p \<Rightarrow> (p, qi\<lparr>retryer := map_option (\<lambda>(config, r). (config, continueRetry r)) (retryer qi)\<rparr>)
           | None \<Rightarrow> startFetch red env newOptions fetchOptions qi)
      else startFetch red env newOptions fetchOptions qi)"

section \<open>QueryInfo: what can happen to an entry\<close>

text \<open>
  The calls and callbacks that reach one QueryInfo, each with the environment at that
  moment: \<open>fetch\<close>, the settling of the promise returned by the fetch function, the end
  of a retry delay, \<open>retryer.continue()\<close> (from \<open>onOnline\<close> and \<open>onFocus\<close>), \<open>cancel\<close>,
  \<open>retryer.cancelRetry()\<close> (the last listener left), the public \<open>setData\<close> and
  \<open>invalidate\<close>. Every action the reducer sees other than \<open>setState\<close> is dispatched
  from one of them.
\<close>

datatype ('d, 'e, 'm) Event =
    EvFetch "('d, 'e) QueryInfoOptions option" "'m FetchOptions option"
  | EvFnResolved "'d option"
  | EvFnRejected "'e Thrown"
  | EvSleepDone "'e Thrown"
  | EvContinue
  | EvCancel "CancelOptions option"
  | EvCancelRetry
  | EvSetData "'d Updater" "int option"
  | EvInvalidate

fun step ::
  "('d option \<Rightarrow> 'd option \<Rightarrow> 'd option) \<Rightarrow> ('d, 'e, 'm) QueryInfo \<Rightarrow>
   Env \<times> ('d, 'e, 'm) Event \<Rightarrow> ('d, 'e, 'm) QueryInfo" where
  "step red qi (env, EvFetch newOptions fetchOptions) = snd (fetch red env newOptions fetchOptions qi)"
| "step red qi (env, EvFnResolved v) = withRetryer red env (\<lambda>config. resolve v) qi"
| "step red qi (env, EvFnRejected e) = withRetryer red env (\<lambda>config. onRejected env config e) qi"
| "step red qi (env, EvSleepDone e) = withRetryer red env (\<lambda>config. afterSleep env config e) qi"
| "step red qi (env, EvContinue) = withRetryer red env (retryer_continue env) qi"
| "step red qi (env, EvCancel cancelOptions) = cancel red env cancelOptions qi"
| "step red qi (env, EvCancelRetry) =
     qi\<lparr>retryer := map_option (\<lambda>(config, r). (config, cancelRetry r)) (retryer qi)\<rparr>"
| "step red qi (env, EvSetData updater updatedAt) = snd (setData red env updater updatedAt qi)"
| "step red qi (env, EvInvalidate) = invalidate env qi"

fun isSuccessAction :: "('d, 'e, 'm) Action \<Rightarrow> bool" where
  "isSuccessAction (SuccessAction d t m) = True"
| "isSuccessAction a = False"

fun isSetStateAction :: "('d, 'e, 'm) Action \<Rightarrow> bool" where
  "isSetStateAction (SetStateAction p) = True"
| "isSetStateAction a = False"

text \<open>
  Data was successfully cached at some point: the entry started with initial data, or a
  \<open>success\<close> action has been dispatched since.
\<close>

definition everCached :: "('d, 'e) QueryInfoOptions \<Rightarrow> ('d, 'e, 'm) QueryInfo \<Rightarrow> bool" where
  "everCached opts qi = (initialData opts \<noteq> None \<or> list_ex isSuccessAction (notified qi))"

definition neverCachedInv :: "('d, 'e) QueryInfoOptions \<Rightarrow> ('d, 'e, 'm) QueryInfo \<Rightarrow> bool" where
  "neverCachedInv opts qi =
     (everCached opts qi \<or>
      (dataUpdatedAt (state qi) = 0 \<and>
       (case revertState qi of None \<Rightarrow> True | Some s \<Rightarrow> dataUpdatedAt s = 0)))"

text \<open>
  An error that does not ask for a revert, and the events under which no zero timestamp
  and no reverting cancellation reaches the entry: the clock is never 0, \<open>setData\<close> is
  not given \<open>updatedAt: 0\<close>, and no error is a \<open>CancelledError\<close> with \<open>revert\<close> set.
\<close>

definition notReverting :: "'e Thrown \<Rightarrow> bool" where
  "notReverting e = (\<not> (isCancelledError e \<and> revert e))"

fun plainEvent :: "Env \<times> ('d, 'e, 'm) Event \<Rightarrow> bool" where
  "plainEvent (env, EvSetData updater updatedAt) = (now env \<noteq> 0 \<and> updatedAt \<noteq> Some 0)"
| "plainEvent (env, EvCancel cancelOptions) =
     (now env \<noteq> 0 \<and> notReverting (newCancelledError cancelOptions :: 'e Thrown))"
| "plainEvent (env, EvFnRejected e) = (now env \<noteq> 0 \<and> notReverting e)"
| "plainEvent (env, EvSleepDone e) = (now env \<noteq> 0 \<and> notReverting e)"
| "plainEvent (env, ev) = (now env \<noteq> 0)"

fun plainEffect :: "('d, 'e) Effect \<Rightarrow> bool" where
  "plainEffect (CallOnError e) = notReverting e"
| "plainEffect eff = True"

definition plainRetryer :: "'e Retryer \<Rightarrow> bool" where
  "plainRetryer r = (case continueFn r of Some (ThenRetry e) \<Rightarrow> notReverting e | _ \<Rightarrow> True)"

definition stampInv :: "('d, 'e) QueryInfoOptions \<Rightarrow> ('d, 'e, 'm) QueryInfo \<Rightarrow> bool" where
  "stampInv opts qi = (everCached opts qi \<longrightarrow> dataUpdatedAt (state qi) \<noteq> 0)"

definition cachedInv :: "('d, 'e) QueryInfoOptions \<Rightarrow> ('d, 'e, 'm) QueryInfo \<Rightarrow> bool" where
  "cachedInv opts qi =
     (stampInv opts qi
      \<and> (case retryer qi of None \<Rightarrow> True | Some (config, r) \<Rightarrow> plainRetryer r))"


section \<open>QueryCache and de/rehydration (queryCache.ts, hydration.ts)\<close>

text \<open>
  The \<open>queries\<close> map of a QueryCache: hash to entry, in insertion order. An entry is a
  mutable object; changing it is replacing it under its hash.
\<close>

type_synonym ('d, 'e, 'm) QueryStore = "(string \<times> ('d, 'e, 'm) QueryInfo) list"

definition get :: "('d, 'e, 'm) QueryStore \<Rightarrow> string \<Rightarrow> ('d, 'e, 'm) QueryInfo option" where
  "get queries h = map_of queries h"

definition getAll :: "('d, 'e, 'm) QueryStore \<Rightarrow> ('d, 'e, 'm) QueryInfo list" where
  "getAll queries = map snd queries"

definition replaceEntry ::
  "('d, 'e, 'm) QueryStore \<Rightarrow> string \<Rightarrow> ('d, 'e, 'm) QueryInfo \<Rightarrow> ('d, 'e, 'm) QueryStore" where
  "replaceEntry queries h qi = map (\<lambda>(k, q). if k = h then (k, qi) else (k, q)) queries"

text \<open>
  What \<open>build\<close> takes from the client: \<open>client.defaultQueryOptions\<close>, and the function
  \<open>hashKeyByOptions\<close> of utils, which is not among the sources and is needed only when
  the options carry no \<open>queryHash\<close>.
\<close>

record ('d, 'e) Client =
  defaultQueryOptions :: "('d, 'e) QueryInfoOptions \<Rightarrow> ('d, 'e) QueryInfoOptions"
  hashKeyByOptions :: "jsval \<Rightarrow> ('d, 'e) QueryInfoOptions \<Rightarrow> string"

text \<open>\<open>build(client, options, state)\<close>; the \<open>added\<close> event is not recorded.\<close>

definition build ::
  "Env \<Rightarrow> ('d, 'e) Client \<Rightarrow> ('d, 'e, 'm) QueryStore \<Rightarrow> ('d, 'e) QueryInfoOptions \<Rightarrow>
   ('d, 'e, 'm) QueryInfoState option \<Rightarrow> ('d, 'e, 'm) QueryInfo \<times> ('d, 'e, 'm) QueryStore" where
  "build env client queries opts st =
     (let h = (case o_queryHash opts of
                 Some h' \<Rightarrow> h'
               | None \<Rightarrow> hashKeyByOptions client (getFullKey (key (query opts)) (o_variables opts)) opts)
      in case get queries h of
           Some qi \<Rightarrow> (qi, queries)
         | None \<Rightarrow>
             (let qi = createQueryInfo env h (o_variables opts) (defaultQueryOptions client opts) st
              in (qi, queries @ [(h, qi)])))"

text \<open>
  A dehydrated query: \<open>{query: {key, $inf$}, queryHash, state, variables?, meta?}\<close>.
  Absent variables are \<open>JUndefined\<close>.
\<close>

record ('d, 'e, 'm) DehydratedQuery =
  dq_key :: string
  dq_inf :: bool
  dq_queryHash :: string
  dq_state :: "('d, 'e, 'm) QueryInfoState"
  dq_variables :: jsval
  dq_meta :: "jsval option"

definition dehydrateQuery :: "('d, 'e, 'm) QueryInfo \<Rightarrow> ('d, 'e, 'm) DehydratedQuery" where
  "dehydrateQuery qi =
     \<lparr> dq_key = key (query (options qi)),
       dq_inf = inf (query (options qi)),
       dq_queryHash = queryHash qi,
       dq_state = state qi,
       dq_variables = variables qi,
       dq_meta = queryMeta (options qi) \<rparr>"

definition defaultShouldDehydrateQuery :: "('d, 'e, 'm) QueryInfo \<Rightarrow> bool" where
  "defaultShouldDehydrateQuery qi = (status (state qi) = Success)"

text \<open>\<open>isGeneratedKey\<close>: \<open>key.startsWith('$q$')\<close>.\<close>

definition isGeneratedKey :: "string \<Rightarrow> bool" where
  "isGeneratedKey k = (take 3 k = ''$q$'')"

definition dehydrate ::
  "('d, 'e, 'm) QueryStore \<Rightarrow> (('d, 'e, 'm) QueryInfo \<Rightarrow> bool) option \<Rightarrow>
   ('d, 'e, 'm) DehydratedQuery list" where
  "dehydrate queries shouldDehydrateQuery =
     (let filterQuery = (case shouldDehydrateQuery of
                           None \<Rightarrow> defaultShouldDehydrateQuery | Some f \<Rightarrow> f)
      in concat (map (\<lambda>qi. if \<not> isGeneratedKey (key (query (options qi))) \<and> filterQuery qi
                            then [dehydrateQuery qi] else [])
                     (getAll queries)))"

text \<open>A whole state as the argument of \<open>setState\<close>.\<close>

definition wholeState :: "('d, 'e, 'm) QueryInfoState \<Rightarrow> ('d, 'e, 'm) PartialState" where
  "wholeState s =
     \<lparr> p_data = Some (data s), p_dataUpdatedAt = Some (dataUpdatedAt s),
       p_error = Some (error s), p_errorUpdatedAt = Some (errorUpdatedAt s),
       p_fetchMeta = Some (fetchMeta s), p_isInvalidated = Some (isInvalidated s),
       p_status = Some (status s), p_fetchStatus = Some (fetchStatus s) \<rparr>"

text \<open>
  \<open>{...options?.defaultOptions?.queries, ...queryOptions}\<close>: the default options given
  to \<open>hydrate\<close> under the fields of the dehydrated query. The dehydrated query
  descriptor has a key and the \<open>$inf$\<close> mark only.
\<close>

definition hydrateOptions ::
  "('d, 'e) QueryInfoOptions \<Rightarrow> ('d, 'e, 'm) DehydratedQuery \<Rightarrow> ('d, 'e) QueryInfoOptions" where
  "hydrateOptions defaults dq =
     defaults\<lparr> query := \<lparr>key = dq_key dq, inf = dq_inf dq, q_retry = None, q_retryDelay = None,
                           q_networkMode = None, q_structuralSharing = None, q_initialData = None,
                           q_initialDataUpdatedAt = None, q_queryKeyHashFn = None, q_meta = None\<rparr>,
               o_queryHash := Some (dq_queryHash dq),
               o_variables := (if dq_variables dq = JUndefined then o_variables defaults
                               else dq_variables dq),
               queryMeta := orElse (dq_meta dq) (queryMeta defaults) \<rparr>"

text \<open>The body of the \<open>forEach\<close> of \<open>hydrate\<close>.\<close>

definition hydrateQuery ::
  "Env \<Rightarrow> ('d, 'e) Client \<Rightarrow> ('d, 'e) QueryInfoOptions \<Rightarrow> ('d, 'e, 'm) QueryStore \<Rightarrow>
   ('d, 'e, 'm) DehydratedQuery \<Rightarrow> ('d, 'e, 'm) QueryStore" where
  "hydrateQuery env client defaults queries dq =
     (let dehydratedQueryState = (dq_state dq)\<lparr>fetchStatus := Idle\<rparr>
      in case get queries (dq_queryHash dq) of
           Some qi \<Rightarrow>
             if dataUpdatedAt (state qi) < dataUpdatedAt dehydratedQueryState
             then replaceEntry queries (dq_queryHash dq)
                    (setState env (wholeState dehydratedQueryState) qi)
             else queries
         | None \<Rightarrow>
             snd (build env client queries (hydrateOptions defaults dq) (Some dehydratedQueryState)))"

text \<open>
  \<open>hydrate(client, dehydratedState, options)\<close>; a \<open>dehydratedState\<close> that is not a plain
  object is \<open>None\<close>.
\<close>

definition hydrate ::
  "Env \<Rightarrow> ('d, 'e) Client \<Rightarrow> ('d, 'e) QueryInfoOptions \<Rightarrow> ('d, 'e, 'm) QueryStore \<Rightarrow>
   ('d, 'e, 'm) DehydratedQuery list option \<Rightarrow> ('d, 'e, 'm) QueryStore" where
  "hydrate env client defaults queries dehydratedState =
     (case dehydratedState of
        None \<Rightarrow> queries
      | Some dqs \<Rightarrow> foldl (hydrateQuery env client defaults) queries dqs)"

text \<open>Every entry is stored under its own hash, and no hash twice.\<close>

definition wellFormedStore :: "('d, 'e, 'm) QueryStore \<Rightarrow> bool" where
  "wellFormedStore queries =
     (distinct (map fst queries) \<and> list_all (\<lambda>(h, qi). queryHash qi = h) queries)"

section \<open>MutationInfo (mutationInfo.ts)\<close>

datatype MutationStatus = MIdle | Mutating | MSuccess | MError

record ('d, 'v, 'e) MutationInfoState =
  m_data :: "'d option"
  m_error :: "'e option"
  m_status :: MutationStatus
  m_variables :: "'v option"

datatype ('d, 'v, 'e) MutationAction =
    MutatingAction "'v option"
  | MSuccessAction 'd
  | MErrorAction 'e

fun mutationReducer ::
  "('d, 'v, 'e) MutationInfoState \<Rightarrow> ('d, 'v, 'e) MutationAction \<Rightarrow> ('d, 'v, 'e) MutationInfoState" where
  "mutationReducer s (MutatingAction v) =
     s\<lparr>m_data := None, m_error := None, m_status := Mutating, m_variables := v\<rparr>"
| "mutationReducer s (MSuccessAction d) =
     s\<lparr>m_data := Some d, m_error := None, m_status := MSuccess\<rparr>"
| "mutationReducer s (MErrorAction e) =
     s\<lparr>m_data := None, m_error := Some e, m_status := MError\<rparr>"

definition getDefaultMutationState :: "('d, 'v, 'e) MutationInfoState" where
  "getDefaultMutationState =
     \<lparr>m_data = None, m_error = None, m_status = MIdle, m_variables = None\<rparr>"

text \<open>
  The three optional callbacks, as the registry (\<open>cache.config\<close>) and the instance
  (\<open>options\<close>) both have them. A callback gets its arguments and the MutationInfo, of
  which it can read the state; awaiting it either completes (\<open>None\<close>) or throws.
\<close>

record ('d, 'v, 'e) MutationCallbacks =
  cb_onSuccess :: "('d \<Rightarrow> 'v \<Rightarrow> ('d, 'v, 'e) MutationInfoState \<Rightarrow> 'e option) option"
  cb_onError :: "('e \<Rightarrow> 'v \<Rightarrow> ('d, 'v, 'e) MutationInfoState \<Rightarrow> 'e option) option"
  cb_onSettled ::
    "('d option \<Rightarrow> 'e option \<Rightarrow> 'v \<Rightarrow> ('d, 'v, 'e) MutationInfoState \<Rightarrow> 'e option) option"

datatype CallbackName =
    RegistryOnSuccess | InstanceOnSuccess
  | RegistryOnError | InstanceOnError
  | RegistryOnSettled | InstanceOnSettled

text \<open>
  What \<open>trigger\<close> does, in order: dispatching an action, calling a callback, and
  settling the promise it returned (\<open>Inr\<close> resolves, \<open>Inl\<close> rejects).
\<close>

datatype ('d, 'v, 'e) TriggerEvent =
    Dispatch "('d, 'v, 'e) MutationAction"
  | Call CallbackName
  | Settle "'e + 'd"

text \<open>
  A run of \<open>await a?.(...); await b?.(...); ...\<close>: absent callbacks are passed over, and
  the first one that throws ends the run with what it threw.
\<close>

fun awaitAll ::
  "(CallbackName \<times> ('s \<Rightarrow> 'e option) option) list \<Rightarrow> 's \<Rightarrow> CallbackName list \<times> 'e option" where
  "awaitAll [] s = ([], None)"
| "awaitAll ((name, None) # rest) s = awaitAll rest s"
| "awaitAll ((name, Some f) # rest) s =
     (case f s of
        Some e \<Rightarrow> ([name], Some e)
      | None \<Rightarrow> (let (names, thrown) = awaitAll rest s in (name # names, thrown)))"

definition successCallbacks ::
  "('d, 'v, 'e) MutationCallbacks \<Rightarrow> ('d, 'v, 'e) MutationCallbacks \<Rightarrow> 'd \<Rightarrow> 'v \<Rightarrow>
   (CallbackName \<times> (('d, 'v, 'e) MutationInfoState \<Rightarrow> 'e option) option) list" where
  "successCallbacks config opts d v =
     [(RegistryOnSuccess, map_option (\<lambda>f. f d v) (cb_onSuccess config)),
      (InstanceOnSuccess, map_option (\<lambda>f. f d v) (cb_onSuccess opts)),
      (RegistryOnSettled, map_option (\<lambda>f. f (Some d) None v) (cb_onSettled config)),
      (InstanceOnSettled, map_option (\<lambda>f. f (Some d) None v) (cb_onSettled opts))]"

definition errorCallbacks ::
  "('d, 'v, 'e) MutationCallbacks \<Rightarrow> ('d, 'v, 'e) MutationCallbacks \<Rightarrow> 'e \<Rightarrow> 'v \<Rightarrow>
   (CallbackName \<times> (('d, 'v, 'e) MutationInfoState \<Rightarrow> 'e option) option) list" where
  "errorCallbacks config opts err v =
     [(RegistryOnError, map_option (\<lambda>f. f err v) (cb_onError config)),
      (InstanceOnError, map_option (\<lambda>f. f err v) (cb_onError opts)),
      (RegistryOnSettled, map_option (\<lambda>f. f None (Some err) v) (cb_onSettled config)),
      (InstanceOnSettled, map_option (\<lambda>f. f None (Some err) v) (cb_onSettled opts))]"

text \<open>
  The \<open>catch (error)\<close> block: the error callbacks, then \<open>throw error\<close> unless one of
  them threw first, and in either case the \<open>finally\<close> dispatching the error action.
\<close>

definition catchBlock ::
  "('d, 'v, 'e) MutationCallbacks \<Rightarrow> ('d, 'v, 'e) MutationCallbacks \<Rightarrow> 'e \<Rightarrow> 'v \<Rightarrow>
   ('d, 'v, 'e) MutationInfoState \<Rightarrow>
   ('d, 'v, 'e) TriggerEvent list \<times> ('d, 'v, 'e) MutationInfoState" where
  "catchBlock config opts err v s =
     (let (called, thrown) = awaitAll (errorCallbacks config opts err v) s
      in (map Call called
            @ [Dispatch (MErrorAction err),
               Settle (Inl (case thrown of None \<Rightarrow> err | Some e \<Rightarrow> e))],
          mutationReducer s (MErrorAction err)))"

text \<open>
  \<open>trigger(variables)\<close>, given what the promise of the retryer settles with
  (\<open>outcome\<close>). It returns what happened, in order, and the state it leaves.
\<close>

definition trigger ::
  "('d, 'v, 'e) MutationCallbacks \<Rightarrow> ('d, 'v, 'e) MutationCallbacks \<Rightarrow> 'v \<Rightarrow> 'e + 'd \<Rightarrow>
   ('d, 'v, 'e) MutationInfoState \<Rightarrow>
   ('d, 'v, 'e) TriggerEvent list \<times> ('d, 'v, 'e) MutationInfoState" where
  "trigger config opts v outcome s =
     (let restored = (m_status s = Mutating);
          (started, s0) = (if \<not> restored
                           then ([Dispatch (MutatingAction (Some v))],
                                 mutationReducer s (MutatingAction (Some v)))
                           else ([], s))
      in case outcome of
           Inr d \<Rightarrow>
             (let (called, thrown) = awaitAll (successCallbacks config opts d v) s0
              in case thrown of
                   None \<Rightarrow>
                     (started @ map Call called @ [Dispatch (MSuccessAction d), Settle (Inr d)],
                      mutationReducer s0 (MSuccessAction d))
                 | Some e \<Rightarrow>
                     (let (events, s') = catchBlock config opts e v s0
                      in (started @ map Call called @ events, s')))
         | Inl err \<Rightarrow>
             (let (events, s') = catchBlock config opts err v s0
              in (started @ events, s')))"

text \<open>The callbacks called, in order, and whether an event is a terminal dispatch.\<close>

fun callsOf :: "('d, 'v, 'e) TriggerEvent list \<Rightarrow> CallbackName list" where
  "callsOf [] = []"
| "callsOf (Call c # evs) = c # callsOf evs"
| "callsOf (ev # evs) = callsOf evs"

fun isTerminalDispatch :: "('d, 'v, 'e) TriggerEvent \<Rightarrow> bool" where
  "isTerminalDispatch (Dispatch (MSuccessAction d)) = True"
| "isTerminalDispatch (Dispatch (MErrorAction e)) = True"
| "isTerminalDispatch ev = False"

fun isSettle :: "('d, 'v, 'e) TriggerEvent \<Rightarrow> bool" where
  "isSettle (Settle r) = True"
| "isSettle ev = False"

text \<open>The callbacks that are configured, out of a list of them.\<close>

definition configured ::
  "(CallbackName \<times> ('s \<Rightarrow> 'e option) option) list \<Rightarrow> CallbackName list" where
  "configured cbs = map fst (filter (\<lambda>(name, f). f \<noteq> None) cbs)"

text \<open>No configured callback of the list throws in the given state.\<close>

definition noneThrows :: "(CallbackName \<times> ('s \<Rightarrow> 'e option) option) list \<Rightarrow> 's \<Rightarrow> bool" where
  "noneThrows cbs s = list_all (\<lambda>(name, f). case f of None \<Rightarrow> True | Some g \<Rightarrow> g s = None) cbs"

section \<open>Infinite queries (infiniteQueryBehavior.ts)\<close>


text \<open>
  \<open>InfiniteData\<close>. A page parameter is a number; the list of parameters can also hold
  the \<open>null\<close> or \<open>undefined\<close> that a parameter function returned (\<open>None\<close>).
\<close>

record 'p InfiniteData =
  pages :: "'p list"
  pageParams :: "int option list"

text \<open>
  The options the behaviour reads. The parameter functions get the last (first) page and
  its parameter, which are \<open>undefined\<close> when there is none. \<open>maxPages\<close> is the "maximum
  number of pages to store", a count.
\<close>

record 'p InfiniteQueryPageParamsOptions =
  o_getPreviousPageParam ::
    "('p option \<Rightarrow> 'p list \<Rightarrow> int option \<Rightarrow> int option list \<Rightarrow> int option) option"
  o_getNextPageParam :: "'p option \<Rightarrow> 'p list \<Rightarrow> int option \<Rightarrow> int option list \<Rightarrow> int option"
  initialPageParam :: int
  maxPages :: "nat option"

text \<open>\<open>xs[i]\<close> for a possibly out-of-range or negative index.\<close>

definition at :: "'a list \<Rightarrow> int \<Rightarrow> 'a option" where
  "at xs i = (if 0 \<le> i \<and> i < int (length xs) then Some (xs ! nat i) else None)"


definition getPreviousPageParam ::
  "'p InfiniteQueryPageParamsOptions \<Rightarrow> 'p InfiniteData \<Rightarrow> int option" where
  "getPreviousPageParam opts d =
     (case o_getPreviousPageParam opts of
        None \<Rightarrow> None
      | Some f \<Rightarrow> f (at (pages d) 0) (pages d)
                   (case at (pageParams d) 0 of None \<Rightarrow> None | Some p \<Rightarrow> p) (pageParams d))"


definition hasPreviousPage :: "'p InfiniteQueryPageParamsOptions \<Rightarrow> 'p InfiniteData option \<Rightarrow> bool" where
  "hasPreviousPage opts d =
     (case d of
        None \<Rightarrow> False
      | Some d' \<Rightarrow> o_getPreviousPageParam opts \<noteq> None \<and> getPreviousPageParam opts d' \<noteq> None)"












section \<open>Observable queries (observableQuery.ts)\<close>




































section \<open>Concrete values used by the examples\<close>

definition env0 :: Env where
  "env0 = \<lparr>isOnline = True, isFocused = True, isServer = False, now = 1000\<rparr>"

definition retryTrue :: "unit RetryerConfig" where
  "retryTrue = \<lparr>c_retry = Some (RetryBool True), c_retryDelay = None, c_networkMode = None\<rparr>"

definition retry3 :: "unit RetryerConfig" where
  "retry3 = \<lparr>c_retry = Some (RetryCount 3), c_retryDelay = None, c_networkMode = None\<rparr>"

definition retryer0 :: "unit Retryer" where
  "retryer0 = \<lparr>isRetryCancelled = False, failureCount = 2, isResolved = False,
                continueFn = None, r_promise = 0\<rparr>"

definition query0 :: "(nat, unit) PrimitiveQuery" where
  "query0 = \<lparr>key = ''todos'', inf = False, q_retry = None, q_retryDelay = None,
              q_networkMode = None, q_structuralSharing = None, q_initialData = None,
              q_initialDataUpdatedAt = None, q_queryKeyHashFn = None, q_meta = None\<rparr>"

definition options0 :: "(nat, unit) QueryInfoOptions" where
  "options0 = \<lparr>query = query0, o_variables = JUndefined, o_queryHash = None,
                queryKeyHashFn = None, queryMeta = None, retry = None, retryDelay = None,
                networkMode = None, structuralSharing = None, initialData = None,
                initialDataUpdatedAt = None, undefinedProps = []\<rparr>"

definition hash0 :: string where
  "hash0 = ''['' @ quoteJSON ''todos'' @ '']''"

definition queryInfo0 :: "(nat, unit, unit) QueryInfo" where
  "queryInfo0 = createQueryInfo env0 hash0 JUndefined options0 None"

definition keepNew :: "nat option \<Rightarrow> nat option \<Rightarrow> nat option" where
  "keepNew prevData d = d"

definition optionsAfter ::
  "('d, 'e) QueryInfoOptions option \<Rightarrow> ('d, 'e, 'm) QueryInfo \<Rightarrow> ('d, 'e) QueryInfoOptions" where
  "optionsAfter newOptions qi =
     options (case newOptions of None \<Rightarrow> qi | Some no \<Rightarrow> setOptions no qi)"

text \<open>A state with cached data that is being refetched, and a snapshot to revert to.\<close>

definition fetchingState :: "(nat, unit, unit) QueryInfoState" where
  "fetchingState = \<lparr>data = Some 1, dataUpdatedAt = 500, error = None, errorUpdatedAt = 0,
                     fetchMeta = None, isInvalidated = True, status = Success,
                     fetchStatus = Fetching\<rparr>"

definition snapshotState :: "(nat, unit, unit) QueryInfoState" where
  "snapshotState = fetchingState\<lparr>fetchStatus := Idle\<rparr>"

definition fetchThenResolve :: "(Env \<times> (nat, unit, unit) Event) list" where
  "fetchThenResolve = [(env0, EvFetch None None), (env0, EvFnResolved (Some 5))]"

text \<open>
  A client that leaves the options as they are, an entry in success state under a
  generated key, and one under the key \<open>todos\<close>.
\<close>

definition client0 :: "(nat, unit) Client" where
  "client0 = \<lparr>defaultQueryOptions = (\<lambda>opts. opts), hashKeyByOptions = (\<lambda>fullKey opts. hash0)\<rparr>"

definition liveEntry :: "(nat, unit, unit) QueryInfo" where
  "liveEntry = queryInfo0\<lparr>state := snapshotState\<rparr>"

definition hashGenerated :: string where
  "hashGenerated = ''['' @ quoteJSON ''$q$1'' @ '']''"

definition generatedEntry :: "(nat, unit, unit) QueryInfo" where
  "generatedEntry = liveEntry\<lparr>queryHash := hashGenerated,
                               options := options0\<lparr>query := query0\<lparr>key := ''$q$1''\<rparr>\<rparr>\<rparr>"

text \<open>
  On the entry holding 1: \<open>fetch()\<close>, \<open>fetch()\<close> with \<open>cancelRefetch\<close>, then
  \<open>cancel({revert: true})\<close>, and the entry they leave.
\<close>

definition refetchTwiceThenCancel :: "(Env \<times> (nat, unit, unit) Event) list" where
  "refetchTwiceThenCancel =
     [(env0, EvFetch None None),
      (env0, EvFetch None (Some \<lparr>cancelRefetch = True, meta = None\<rparr>)),
      (env0, EvCancel (Some \<lparr>co_revert = True, co_silent = False\<rparr>))]"

definition stuckEntry :: "(nat, unit, unit) QueryInfo" where
  "stuckEntry = foldl (step keepNew) liveEntry refetchTwiceThenCancel"

text \<open>
  Registry callbacks that complete, instance callbacks of which \<open>onSettled\<close> throws, and
  instance callbacks that complete.
\<close>

definition registryCallbacks :: "(nat, unit, nat) MutationCallbacks" where
  "registryCallbacks = \<lparr>cb_onSuccess = Some (\<lambda>d v s. None), cb_onError = Some (\<lambda>e v s. None),
                         cb_onSettled = Some (\<lambda>d e v s. None)\<rparr>"

definition throwingCallbacks :: "(nat, unit, nat) MutationCallbacks" where
  "throwingCallbacks = \<lparr>cb_onSuccess = Some (\<lambda>d v s. None), cb_onError = Some (\<lambda>e v s. None),
                         cb_onSettled = Some (\<lambda>d e v s. Some 99)\<rparr>"

definition quietCallbacks :: "(nat, unit, nat) MutationCallbacks" where
  "quietCallbacks = \<lparr>cb_onSuccess = Some (\<lambda>d v s. None), cb_onError = None,
                      cb_onSettled = Some (\<lambda>d e v s. None)\<rparr>"











section \<open>Retryer: the decision after a failed attempt\<close>

lemma shouldRetry_cases:
  "shouldRetry env config n err =
     (let ro = (case c_retry config of
                  None \<Rightarrow> RetryCount (if isServer env then 0 else 3) | Some v \<Rightarrow> v)
      in ro = RetryBool True
         \<or> (\<exists>k. ro = RetryCount k \<and> int n < k)
         \<or> (\<exists>f. ro = RetryFn f \<and> f n err))"
proof -
  define ro where "ro = (case c_retry config of
                  None \<Rightarrow> RetryCount (if isServer env then 0 else 3) | Some v \<Rightarrow> v)"
  have "shouldRetry env config n err =
          (case ro of RetryBool b \<Rightarrow> b | RetryCount k \<Rightarrow> int n < k | RetryFn f \<Rightarrow> f n err)"
    by (simp add: shouldRetry_def ro_def)
  also have "\<dots> = (ro = RetryBool True
         \<or> (\<exists>k. ro = RetryCount k \<and> int n < k)
         \<or> (\<exists>f. ro = RetryFn f \<and> f n err))"
    by (cases ro) auto
  finally show ?thesis by (simp add: ro_def Let_def)
qed

lemma retryDelayOf_cases:
  "retryDelayOf config n err =
     (case c_retryDelay config of
        None \<Rightarrow> min (1000 * 2 ^ n) 30000
      | Some (DelayMs d) \<Rightarrow> d
      | Some (DelayFn g) \<Rightarrow> g n err)"
  by (simp add: retryDelayOf_def defaultRetryDelay_def split: option.splits RetryDelayValue.splits)

text \<open>
  C2, as stated, fails: with \<open>retry: true\<close> the retry option asks for a retry, yet a
  retryer whose retries were cancelled by \<open>cancelRetry()\<close> rejects with the error of the
  failed attempt.
\<close>

theorem retry_option_true_but_retry_cancelled:
  "shouldRetry env0 retryTrue 2 (Failure ())
   \<and> (onRejected env0 retryTrue (Failure ()) (cancelRetry retryer0)
        :: unit Retryer \<times> (nat, unit) Effect list)
     = (cancelRetry retryer0\<lparr>isResolved := True\<rparr>,
        [CallOnError (Failure ()), PromiseReject 0 (Failure ())])"
  by (simp add: shouldRetry_def retryTrue_def onRejected_def cancelRetry_def retryer0_def reject_def
      retryDelayOf_def)

text \<open>
  C2, amended: for a retryer that is not resolved and whose retries are not cancelled,
  a failed attempt with failure count \<open>n\<close> and error \<open>err\<close> is retried iff the retry
  option (3 when absent, 0 on the server) is \<open>true\<close>, a number greater than \<open>n\<close>, or a
  function returning true on \<open>(n, err)\<close>. If it is retried, the failure count becomes
  \<open>n + 1\<close> and the retryer sleeps for \<open>retryDelay(n, err)\<close>, a given number, or
  \<open>min(1000 * 2^n, 30000)\<close> when no delay is configured; after the sleep it pauses if it
  has to, and otherwise calls the function again with the count already incremented. If
  it is not retried, the retryer rejects with \<open>err\<close> itself.
\<close>

theorem retry_decision:
  assumes live: "\<not> isResolved r" and go: "\<not> isRetryCancelled r"
    and ro: "retryOption = (case c_retry config of
                          None \<Rightarrow> RetryCount (if isServer env then 0 else 3) | Some v \<Rightarrow> v)"
    and n: "n = failureCount r"
    and delay: "delay = (case c_retryDelay config of
                    None \<Rightarrow> min (1000 * 2 ^ n) 30000
                  | Some (DelayMs d) \<Rightarrow> d
                  | Some (DelayFn g) \<Rightarrow> g n err)"
  shows "(if retryOption = RetryBool True
             \<or> (\<exists>k. retryOption = RetryCount k \<and> int n < k)
             \<or> (\<exists>f. retryOption = RetryFn f \<and> f n err)
          then (onRejected env config err r :: 'e Retryer \<times> ('d, 'e) Effect list)
                 = (r\<lparr>failureCount := Suc n\<rparr>, [Sleep delay err])
               \<and> (afterSleep env' config err (r\<lparr>failureCount := Suc n\<rparr>)
                    :: 'e Retryer \<times> ('d, 'e) Effect list)
                 = (if shouldPause env' config
                    then (r\<lparr>failureCount := Suc n, continueFn := Some (ThenRetry err)\<rparr>,
                          [CallOnPause])
                    else (r\<lparr>failureCount := Suc n\<rparr>, [CallFn]))
          else (onRejected env config err r :: 'e Retryer \<times> ('d, 'e) Effect list)
                 = (r\<lparr>isResolved := True, continueFn := None\<rparr>,
                    [CallOnError err, PromiseReject (r_promise r) err]))"
proof -
  have sr: "shouldRetry env config n err =
      (retryOption = RetryBool True
         \<or> (\<exists>k. retryOption = RetryCount k \<and> int n < k)
         \<or> (\<exists>f. retryOption = RetryFn f \<and> f n err))"
    by (simp add: shouldRetry_cases ro Let_def)
  have d: "retryDelayOf config n err = delay"
    by (simp add: retryDelayOf_cases delay)
  show ?thesis
  proof (cases "shouldRetry env config n err")
    case True
    then have "(onRejected env config err r :: 'e Retryer \<times> ('d, 'e) Effect list)
                 = (r\<lparr>failureCount := Suc n\<rparr>, [Sleep delay err])"
      using live go d by (simp add: onRejected_def n Let_def)
    moreover have "(afterSleep env' config err (r\<lparr>failureCount := Suc n\<rparr>)
                    :: 'e Retryer \<times> ('d, 'e) Effect list)
                 = (if shouldPause env' config
                    then (r\<lparr>failureCount := Suc n, continueFn := Some (ThenRetry err)\<rparr>,
                          [CallOnPause])
                    else (r\<lparr>failureCount := Suc n\<rparr>, [CallFn]))"
      using live go by (simp add: afterSleep_def pause_def retryOrReject_def run_def)
    moreover from True sr have "retryOption = RetryBool True
         \<or> (\<exists>k. retryOption = RetryCount k \<and> int n < k)
         \<or> (\<exists>f. retryOption = RetryFn f \<and> f n err)" by blast
    ultimately show ?thesis by (simp only: if_True)
  next
    case False
    then have "(onRejected env config err r :: 'e Retryer \<times> ('d, 'e) Effect list)
                 = (r\<lparr>isResolved := True, continueFn := None\<rparr>,
                    [CallOnError err, PromiseReject (r_promise r) err])"
      using live by (simp add: onRejected_def n Let_def reject_def)
    moreover from False sr have "\<not> (retryOption = RetryBool True
         \<or> (\<exists>k. retryOption = RetryCount k \<and> int n < k)
         \<or> (\<exists>f. retryOption = RetryFn f \<and> f n err))" by blast
    ultimately show ?thesis by (simp only: if_False)
  qed
qed

theorem retry_decision_witness:
  "(onRejected env0 retry3 (Failure ()) retryer0 :: unit Retryer \<times> (nat, unit) Effect list)
     = (retryer0\<lparr>failureCount := 3\<rparr>, [Sleep 4000 (Failure ())])
   \<and> (afterSleep env0 retry3 (Failure ()) (retryer0\<lparr>failureCount := 3\<rparr>)
        :: unit Retryer \<times> (nat, unit) Effect list)
     = (retryer0\<lparr>failureCount := 3\<rparr>, [CallFn])"
proof -
  have h1: "\<not> isResolved retryer0" and h2: "\<not> isRetryCancelled retryer0"
    by (simp_all add: retryer0_def)
  have h3: "RetryCount 3 = (case c_retry retry3 of
                          None \<Rightarrow> RetryCount (if isServer env0 then 0 else 3) | Some v \<Rightarrow> v)"
    by (simp add: retry3_def)
  have h4: "2 = failureCount retryer0"
    by (simp add: retryer0_def)
  have h5: "(4000::int) = (case c_retryDelay retry3 of
                    None \<Rightarrow> min (1000 * 2 ^ 2) 30000
                  | Some (DelayMs d) \<Rightarrow> d
                  | Some (DelayFn g) \<Rightarrow> g 2 (Failure ()))"
    by (simp add: retry3_def)
  have c: "RetryCount 3 = RetryBool True
             \<or> (\<exists>k. RetryCount 3 = RetryCount k \<and> int 2 < k)
             \<or> (\<exists>f. RetryCount 3 = RetryFn f \<and> f 2 (Failure ()))"
    by simp
  have p: "\<not> shouldPause env0 retry3"
    by (simp add: shouldPause_def env0_def)
  have s: "Suc 2 = 3" by simp
  show ?thesis
    using retry_decision [OF h1 h2 h3 h4 h5, where env' = env0 and ?'d = nat]
    unfolding if_P [OF c] if_not_P [OF p] s .
qed

section \<open>QueryInfo: deduplication of concurrent fetches\<close>

lemma cancel_silent_unchanged:
  "state (cancel red env (Some \<lparr>co_revert = False, co_silent = True\<rparr>) qi) = state qi"
  "fnCalls (cancel red env (Some \<lparr>co_revert = False, co_silent = True\<rparr>) qi) = fnCalls qi"
  "promiseCount (cancel red env (Some \<lparr>co_revert = False, co_silent = True\<rparr>) qi) = promiseCount qi"
  "options (cancel red env (Some \<lparr>co_revert = False, co_silent = True\<rparr>) qi) = options qi"
  by (auto simp: cancel_def withRetryer_def retryer_cancel_def reject_def newCancelledError_def
      onError_def split: option.splits prod.splits)

lemma startFetch_result:
  assumes "startFetch red env newOptions fetchOptions qi = (p, qi')"
  shows "fetchStatus (state qi') \<noteq> Idle" and "promise qi' = Some p"
    and "promiseCount qi' = Suc (promiseCount qi)"
    and "fnCalls qi' = fnCalls qi
           + (if canFetch env (networkMode (optionsAfter newOptions qi)) then 1 else 0)"
  using assms
  by (auto simp: startFetch_def Let_def createRetryer_def run_def pause_def dispatch_def
      setOptions_def optionsAfter_def split: option.splits prod.splits if_splits)

lemma startFetch_in_flight:
  assumes "startFetch red env newOptions fetchOptions qi = (p, qi')"
  shows "p = promiseCount qi" and "settled qi' = settled qi"
    and "\<exists>config r. retryer qi' = Some (config, r) \<and> \<not> isResolved r \<and> r_promise r = p"
  using assms
  by (auto simp: startFetch_def Let_def createRetryer_def run_def pause_def dispatch_def
      setOptions_def split: option.splits prod.splits if_splits)

lemma fetch_in_flight:
  assumes "fetchStatus (state qi) \<noteq> Idle" and "promise qi = Some p"
    and "cancelRefetchOf fetchOptions \<longrightarrow> dataUpdatedAt (state qi) = 0"
  shows "fetch red env newOptions fetchOptions qi =
           (p, qi\<lparr>retryer := map_option (\<lambda>(config, r). (config, continueRetry r)) (retryer qi)\<rparr>)"
  using assms by (auto simp: fetch_def split: option.splits)

lemma fetch_result:
  assumes "fetch red env newOptions fetchOptions qi = (p, qi')"
  shows "fetchStatus (state qi') \<noteq> Idle" and "promise qi' = Some p"
  using assms
  by (auto simp: fetch_def dest: startFetch_result split: if_splits option.splits)

lemma fetch_from_idle:
  assumes "fetch red env newOptions fetchOptions qi = (p, qi')" and "fetchStatus (state qi) = Idle"
  shows "promiseCount qi' = Suc (promiseCount qi)"
    and "fnCalls qi' = fnCalls qi
           + (if canFetch env (networkMode (optionsAfter newOptions qi)) then 1 else 0)"
  using assms by (auto simp: fetch_def dest: startFetch_result)

lemma stuckEntry_facts:
  "fetchStatus (state stuckEntry) = Fetching"
  "promise stuckEntry = Some 1"
  "settled stuckEntry = [(0, Inl (CancelledError False True)), (1, Inl (CancelledError True False))]"
  "fnCalls stuckEntry = 2"
  "\<exists>config r. retryer stuckEntry = Some (config, r) \<and> isResolved r"
  by (simp_all add: stuckEntry_def refetchTwiceThenCancel_def liveEntry_def snapshotState_def
      fetchingState_def queryInfo0_def createQueryInfo_def options0_def
      spreadOptions_def fetch_def startFetch_def createRetryer_def run_def canFetch_def env0_def
      dispatch_def metaDiffers_def metaOf_def cancelRefetchOf_def withRetryer_def cancel_def
      retryer_cancel_def reject_def newCancelledError_def onError_def Let_def)

text \<open>
  C1, as stated, fails: \<open>fetchStatus\<close> can be \<open>fetching\<close> while no fetch is in flight.
  On an idle entry with cached data, \<open>fetch()\<close>, then \<open>fetch()\<close> with \<open>cancelRefetch\<close>, then
  \<open>cancel({revert: true})\<close>: the second fetch takes its snapshot while the state is
  already \<open>fetching\<close>, so the revert restores \<open>fetching\<close>, and the promise of the second
  fetch is rejected. A further \<open>fetch()\<close> returns that rejected promise and does not call
  the fetch function.
\<close>

theorem fetch_returns_settled_promise:
  "fetchStatus (state stuckEntry) \<noteq> Idle
   \<and> fst (fetch keepNew env0 None None stuckEntry) = 1
   \<and> (1, Inl (CancelledError True False)) \<in> set (settled stuckEntry)
   \<and> fnCalls (snd (fetch keepNew env0 None None stuckEntry)) = fnCalls stuckEntry
   \<and> settled (snd (fetch keepNew env0 None None stuckEntry)) = settled stuckEntry
   \<and> promiseCount (snd (fetch keepNew env0 None None stuckEntry)) = promiseCount stuckEntry"
  by (simp add: fetch_def stuckEntry_facts cancelRefetchOf_def)

text \<open>
  C1, amended. First part: on an entry whose \<open>fetchStatus\<close> is not idle and whose
  retryer has not settled, so that a fetch is in flight, a call to \<open>fetch()\<close> without
  \<open>cancelRefetch\<close>, or with it while \<open>dataUpdatedAt\<close> is 0, returns the promise of that
  retryer; it starts nothing, and only lifts a cancellation of retries, so the fetch is
  still in flight. Second part: of two \<open>fetch()\<close> calls in a row on the same entry, the
  second returns the promise of the first, whatever the state before the first, and calls
  the fetch function no further time. Third part: if the entry was idle before the two
  calls, they created one promise, which both return and which belongs to a retryer that
  has not settled, nothing was settled by them, and the fetch function handed to the
  retryer was called once (not yet, if the fetch had to start paused); if no promise
  named like the new one had been settled before, the new one is pending. Last part:
  whether or not its retryer has settled, an entry whose \<open>fetchStatus\<close> is not idle
  answers such a call with the promise it holds and starts nothing.
\<close>

theorem fetch_deduplicates:
  "(fetchStatus (state qi) \<noteq> Idle \<and> retryer qi = Some (config, r) \<and> \<not> isResolved r
      \<and> promise qi = Some (r_promise r)
      \<and> (cancelRefetchOf fetchOptions \<longrightarrow> dataUpdatedAt (state qi) = 0)
    \<longrightarrow> fetch red env newOptions fetchOptions qi
          = (r_promise r, qi\<lparr>retryer := Some (config, continueRetry r)\<rparr>)
        \<and> \<not> isResolved (continueRetry r) \<and> r_promise (continueRetry r) = r_promise r)
   \<and> (fetch red env1 newOptions1 fetchOptions1 qi = (p1, qi1)
      \<and> fetch red env2 newOptions2 fetchOptions2 qi1 = (p2, qi2)
      \<and> (cancelRefetchOf fetchOptions2 \<longrightarrow> dataUpdatedAt (state qi1) = 0)
    \<longrightarrow> p2 = p1 \<and> promise qi2 = Some p1 \<and> state qi2 = state qi1 \<and> settled qi2 = settled qi1
        \<and> fnCalls qi2 = fnCalls qi1 \<and> promiseCount qi2 = promiseCount qi1
        \<and> (fetchStatus (state qi) = Idle \<longrightarrow>
             p1 = promiseCount qi
             \<and> promiseCount qi2 = Suc (promiseCount qi)
             \<and> (\<exists>config' r'. retryer qi2 = Some (config', r') \<and> \<not> isResolved r'
                               \<and> r_promise r' = p1)
             \<and> settled qi2 = settled qi
             \<and> ((\<forall>x \<in> set (settled qi). fst x < promiseCount qi) \<longrightarrow> p1 \<notin> fst ` set (settled qi2))
             \<and> fnCalls qi2 = fnCalls qi
                 + (if canFetch env1 (networkMode (optionsAfter newOptions1 qi)) then 1 else 0)))
   \<and> (fetchStatus (state qi) \<noteq> Idle \<and> promise qi = Some p
      \<and> (cancelRefetchOf fetchOptions \<longrightarrow> dataUpdatedAt (state qi) = 0)
    \<longrightarrow> fetch red env newOptions fetchOptions qi =
          (p, qi\<lparr>retryer := map_option (\<lambda>(config, r). (config, continueRetry r)) (retryer qi)\<rparr>))"
proof (intro conjI impI)
  assume a: "fetchStatus (state qi) \<noteq> Idle \<and> retryer qi = Some (config, r) \<and> \<not> isResolved r
      \<and> promise qi = Some (r_promise r)
      \<and> (cancelRefetchOf fetchOptions \<longrightarrow> dataUpdatedAt (state qi) = 0)"
  then show "fetch red env newOptions fetchOptions qi
          = (r_promise r, qi\<lparr>retryer := Some (config, continueRetry r)\<rparr>)"
    by (simp add: fetch_in_flight)
  show "\<not> isResolved (continueRetry r)" using a by (simp add: continueRetry_def)
  show "r_promise (continueRetry r) = r_promise r" by (simp add: continueRetry_def)
next
  assume a: "fetch red env1 newOptions1 fetchOptions1 qi = (p1, qi1)
      \<and> fetch red env2 newOptions2 fetchOptions2 qi1 = (p2, qi2)
      \<and> (cancelRefetchOf fetchOptions2 \<longrightarrow> dataUpdatedAt (state qi1) = 0)"
  then have first: "fetch red env1 newOptions1 fetchOptions1 qi = (p1, qi1)" by simp
  have busy: "fetchStatus (state qi1) \<noteq> Idle" and prom: "promise qi1 = Some p1"
    using fetch_result [OF first] by simp_all
  from a have nc: "cancelRefetchOf fetchOptions2 \<longrightarrow> dataUpdatedAt (state qi1) = 0" by simp
  from a have second: "fetch red env2 newOptions2 fetchOptions2 qi1 = (p2, qi2)" by simp
  have "(p2, qi2) =
      (p1, qi1\<lparr>retryer := map_option (\<lambda>(config, r). (config, continueRetry r)) (retryer qi1)\<rparr>)"
    using fetch_in_flight [OF busy prom nc, of red env2 newOptions2] second by simp
  then have eq: "p2 = p1"
    "qi2 = qi1\<lparr>retryer := map_option (\<lambda>(config, r). (config, continueRetry r)) (retryer qi1)\<rparr>"
    by simp_all
  show "p2 = p1" by (rule eq)
  show "promise qi2 = Some p1" by (simp add: eq prom)
  show "state qi2 = state qi1" by (simp add: eq)
  show "settled qi2 = settled qi1" by (simp add: eq)
  show "fnCalls qi2 = fnCalls qi1" by (simp add: eq)
  show "promiseCount qi2 = promiseCount qi1" by (simp add: eq)
  {
    assume idle: "fetchStatus (state qi) = Idle"
    then have start: "startFetch red env1 newOptions1 fetchOptions1 qi = (p1, qi1)"
      using first by (simp add: fetch_def)
    show p: "p1 = promiseCount qi" by (rule startFetch_in_flight(1) [OF start])
    show "promiseCount qi2 = Suc (promiseCount qi)"
      using fetch_from_idle(1) [OF first idle] by (simp add: eq)
    from startFetch_in_flight(3) [OF start] obtain config1 r1 where
      r1: "retryer qi1 = Some (config1, r1)" "\<not> isResolved r1" "r_promise r1 = p1"
      by blast
    then have "retryer qi2 = Some (config1, continueRetry r1) \<and> \<not> isResolved (continueRetry r1)
        \<and> r_promise (continueRetry r1) = p1"
      by (simp add: eq continueRetry_def)
    then show "\<exists>config' r'. retryer qi2 = Some (config', r') \<and> \<not> isResolved r'
                               \<and> r_promise r' = p1"
      by blast
    show s: "settled qi2 = settled qi"
      using startFetch_in_flight(2) [OF start] by (simp add: eq)
    {
      assume "\<forall>x \<in> set (settled qi). fst x < promiseCount qi"
      then show "p1 \<notin> fst ` set (settled qi2)"
        unfolding s p by auto
    }
    show "fnCalls qi2 = fnCalls qi
                 + (if canFetch env1 (networkMode (optionsAfter newOptions1 qi)) then 1 else 0)"
      using fetch_from_idle(2) [OF first idle] by (simp add: eq)
  }
next
  assume "fetchStatus (state qi) \<noteq> Idle \<and> promise qi = Some p
      \<and> (cancelRefetchOf fetchOptions \<longrightarrow> dataUpdatedAt (state qi) = 0)"
  then show "fetch red env newOptions fetchOptions qi =
          (p, qi\<lparr>retryer := map_option (\<lambda>(config, r). (config, continueRetry r)) (retryer qi)\<rparr>)"
    by (simp add: fetch_in_flight)
qed

lemma queryInfo0_facts:
  "fetchStatus (state queryInfo0) = Idle" "promiseCount queryInfo0 = 0" "fnCalls queryInfo0 = 0"
  "settled queryInfo0 = []"
  "canFetch env0 (networkMode (optionsAfter None queryInfo0))"
  by (simp_all add: queryInfo0_def createQueryInfo_def getDefaultState_def options0_def
      spreadOptions_def canFetch_def optionsAfter_def env0_def Let_def)

theorem fetch_deduplicates_witness:
  "fst (fetch keepNew env0 None None (snd (fetch keepNew env0 None None queryInfo0)))
     = fst (fetch keepNew env0 None None queryInfo0)
   \<and> fst (fetch keepNew env0 None None queryInfo0) = 0
   \<and> promiseCount (snd (fetch keepNew env0 None None (snd (fetch keepNew env0 None None queryInfo0))))
     = 1
   \<and> fnCalls (snd (fetch keepNew env0 None None (snd (fetch keepNew env0 None None queryInfo0))))
     = 1
   \<and> settled (snd (fetch keepNew env0 None None (snd (fetch keepNew env0 None None queryInfo0))))
     = []"
proof -
  define p1 where "p1 = fst (fetch keepNew env0 None None queryInfo0)"
  define qi1 where "qi1 = snd (fetch keepNew env0 None None queryInfo0)"
  define p2 where "p2 = fst (fetch keepNew env0 None None qi1)"
  define qi2 where "qi2 = snd (fetch keepNew env0 None None qi1)"
  have first: "fetch keepNew env0 None None queryInfo0 = (p1, qi1)"
    by (simp add: p1_def qi1_def)
  have second: "fetch keepNew env0 None None qi1 = (p2, qi2)"
    by (simp add: p2_def qi2_def)
  have nc: "cancelRefetchOf (None :: unit FetchOptions option) \<longrightarrow> dataUpdatedAt (state qi1) = 0"
    by (simp add: cancelRefetchOf_def)
  have "p2 = p1 \<and> p1 = 0 \<and> promiseCount qi2 = 1 \<and> fnCalls qi2 = 1 \<and> settled qi2 = []"
    using fetch_deduplicates [of queryInfo0 _ _ None keepNew env0 None env0 None None p1 qi1
        env0 None None p2 qi2] first second nc queryInfo0_facts
    by auto
  then show ?thesis by (simp add: p1_def qi1_def p2_def qi2_def)
qed

section \<open>QueryInfo: the error and success transitions\<close>

lemma startFetch_snapshot:
  assumes "startFetch red env newOptions fetchOptions qi = (p, qi')"
  shows "revertState qi' = Some (state qi)"
    and "\<exists>config r. retryer qi' = Some (config, r) \<and> \<not> isResolved r"
  using assms
  by (auto simp: startFetch_def Let_def createRetryer_def run_def pause_def dispatch_def
      setOptions_def split: option.splits prod.splits if_splits)

text \<open>
  C3. An \<open>error\<close> action carrying a \<open>CancelledError\<close> with \<open>revert\<close> set makes the whole
  state of the entry the stored snapshot; \<open>fetch\<close> stores as snapshot the state it finds
  before it dispatches anything, and cancelling that fetch with \<open>{revert: true}\<close> brings
  back exactly that state. Dispatching an \<open>error\<close> action that carries any other error
  records the error and the time in the state of the entry, sets \<open>status\<close> to error and
  \<open>fetchStatus\<close> to idle, and changes no other field, so \<open>data\<close> and \<open>dataUpdatedAt\<close>
  stay; this is what the retryer's \<open>onError\<close> does with every error that is not a silent
  cancellation.
\<close>

theorem error_action_reverts_or_records:
  "(isCancelledError err \<and> revert err \<longrightarrow>
      reducer env nm (Some snapshot) s (ErrorAction err) = snapshot)
   \<and> (isCancelledError err \<and> revert err \<and> revertState qi = Some snapshot \<longrightarrow>
        state (dispatch env (ErrorAction err) qi) = snapshot)
   \<and> (startFetch red env newOptions fetchOptions qi = (p, qi') \<longrightarrow>
        revertState qi' = Some (state qi)
        \<and> state (cancel red env' (Some \<lparr>co_revert = True, co_silent = False\<rparr>) qi') = state qi)
   \<and> (\<not> (isCancelledError err \<and> revert err) \<longrightarrow>
        reducer env nm revertSt s (ErrorAction err)
          = s\<lparr>error := Some err, errorUpdatedAt := now env, fetchStatus := Idle, status := Error\<rparr>
        \<and> data (reducer env nm revertSt s (ErrorAction err)) = data s
        \<and> dataUpdatedAt (reducer env nm revertSt s (ErrorAction err)) = dataUpdatedAt s)
   \<and> (\<not> (isCancelledError err \<and> revert err) \<longrightarrow>
        state (dispatch env (ErrorAction err) qi)
          = (state qi)\<lparr>error := Some err, errorUpdatedAt := now env, fetchStatus := Idle,
                        status := Error\<rparr>
        \<and> data (state (dispatch env (ErrorAction err) qi)) = data (state qi)
        \<and> dataUpdatedAt (state (dispatch env (ErrorAction err) qi)) = dataUpdatedAt (state qi))
   \<and> (\<not> (isCancelledError err \<and> revert err) \<and> \<not> (isCancelledError err \<and> silent err) \<longrightarrow>
        state (onError env err qi)
          = (state qi)\<lparr>error := Some err, errorUpdatedAt := now env, fetchStatus := Idle,
                        status := Error\<rparr>)"
proof (intro conjI impI)
  assume "isCancelledError err \<and> revert err"
  then show "reducer env nm (Some snapshot) s (ErrorAction err) = snapshot" by simp
next
  assume "isCancelledError err \<and> revert err \<and> revertState qi = Some snapshot"
  then show "state (dispatch env (ErrorAction err) qi) = snapshot"
    by (simp add: dispatch_def)
next
  assume a: "startFetch red env newOptions fetchOptions qi = (p, qi')"
  show "revertState qi' = Some (state qi)" by (rule startFetch_snapshot(1) [OF a])
  from startFetch_snapshot [OF a] obtain config r
    where "revertState qi' = Some (state qi)" "retryer qi' = Some (config, r)" "\<not> isResolved r"
    by blast
  then show "state (cancel red env' (Some \<lparr>co_revert = True, co_silent = False\<rparr>) qi') = state qi"
    by (simp add: cancel_def withRetryer_def retryer_cancel_def reject_def newCancelledError_def
        onError_def dispatch_def)
next
  assume n: "\<not> (isCancelledError err \<and> revert err)"
  then show "reducer env nm revertSt s (ErrorAction err)
          = s\<lparr>error := Some err, errorUpdatedAt := now env, fetchStatus := Idle, status := Error\<rparr>"
    by auto
  then show "data (reducer env nm revertSt s (ErrorAction err)) = data s"
    and "dataUpdatedAt (reducer env nm revertSt s (ErrorAction err)) = dataUpdatedAt s"
    by simp_all
next
  assume n: "\<not> (isCancelledError err \<and> revert err)"
  then show "state (dispatch env (ErrorAction err) qi)
          = (state qi)\<lparr>error := Some err, errorUpdatedAt := now env, fetchStatus := Idle,
                        status := Error\<rparr>"
    by (auto simp: dispatch_def)
  then show "data (state (dispatch env (ErrorAction err) qi)) = data (state qi)"
    and "dataUpdatedAt (state (dispatch env (ErrorAction err) qi)) = dataUpdatedAt (state qi)"
    by simp_all
next
  assume n: "\<not> (isCancelledError err \<and> revert err) \<and> \<not> (isCancelledError err \<and> silent err)"
  then show "state (onError env err qi)
          = (state qi)\<lparr>error := Some err, errorUpdatedAt := now env, fetchStatus := Idle,
                        status := Error\<rparr>"
    by (auto simp: onError_def dispatch_def)
qed

theorem error_action_reverts_or_records_witness:
  "reducer env0 None (Some snapshotState) fetchingState (ErrorAction (CancelledError True False))
     = snapshotState
   \<and> state (dispatch env0 (ErrorAction (CancelledError True False))
              (liveEntry\<lparr>state := fetchingState, revertState := Some snapshotState\<rparr>))
     = snapshotState
   \<and> state (cancel keepNew env0 (Some \<lparr>co_revert = True, co_silent = False\<rparr>)
              (snd (startFetch keepNew env0 None None queryInfo0)))
     = state queryInfo0
   \<and> reducer env0 None (Some snapshotState) fetchingState (ErrorAction (Failure ()))
     = fetchingState\<lparr>error := Some (Failure ()), errorUpdatedAt := 1000, fetchStatus := Idle,
                      status := Error\<rparr>
   \<and> state (dispatch env0 (ErrorAction (Failure ()))
              (liveEntry\<lparr>state := fetchingState, revertState := Some snapshotState\<rparr>))
     = fetchingState\<lparr>error := Some (Failure ()), errorUpdatedAt := 1000, fetchStatus := Idle,
                      status := Error\<rparr>
   \<and> state (onError env0 (Failure ())
              (liveEntry\<lparr>state := fetchingState, revertState := Some snapshotState\<rparr>))
     = fetchingState\<lparr>error := Some (Failure ()), errorUpdatedAt := 1000, fetchStatus := Idle,
                      status := Error\<rparr>
   \<and> reducer env0 None (Some snapshotState) fetchingState (ErrorAction (CancelledError False False))
     = fetchingState\<lparr>error := Some (CancelledError False False), errorUpdatedAt := 1000,
                      fetchStatus := Idle, status := Error\<rparr>"
proof -
  have n: "now env0 = 1000" by (simp add: env0_def)
  have r: "revertState (liveEntry\<lparr>state := fetchingState, revertState := Some snapshotState\<rparr>)
             = Some snapshotState"
    and s: "state (liveEntry\<lparr>state := fetchingState, revertState := Some snapshotState\<rparr>)
             = fetchingState"
    by simp_all
  show ?thesis
    using error_action_reverts_or_records [where err = "CancelledError True False" and env = env0
        and nm = None and snapshot = snapshotState and s = fetchingState and red = keepNew
        and newOptions = None and fetchOptions = None
        and qi = "liveEntry\<lparr>state := fetchingState, revertState := Some snapshotState\<rparr>"
        and p = "fst (startFetch keepNew env0 None None
                   (liveEntry\<lparr>state := fetchingState, revertState := Some snapshotState\<rparr>))"
        and qi' = "snd (startFetch keepNew env0 None None
                   (liveEntry\<lparr>state := fetchingState, revertState := Some snapshotState\<rparr>))"
        and env' = env0 and revertSt = "Some snapshotState"]
      error_action_reverts_or_records [where err = "Failure ()" and env = env0
        and nm = None and snapshot = snapshotState and s = fetchingState and red = keepNew
        and newOptions = None and fetchOptions = None
        and qi = "liveEntry\<lparr>state := fetchingState, revertState := Some snapshotState\<rparr>"
        and p = "fst (startFetch keepNew env0 None None
                   (liveEntry\<lparr>state := fetchingState, revertState := Some snapshotState\<rparr>))"
        and qi' = "snd (startFetch keepNew env0 None None
                   (liveEntry\<lparr>state := fetchingState, revertState := Some snapshotState\<rparr>))"
        and env' = env0 and revertSt = "Some snapshotState"]
      error_action_reverts_or_records [where err = "CancelledError False False" and env = env0
        and nm = None and snapshot = snapshotState and s = fetchingState and red = keepNew
        and newOptions = None and fetchOptions = None and qi = queryInfo0
        and p = "fst (startFetch keepNew env0 None None queryInfo0)"
        and qi' = "snd (startFetch keepNew env0 None None queryInfo0)"
        and env' = env0 and revertSt = "Some snapshotState"]
      n r s
    by simp
qed

text \<open>
  C10. Every \<open>success\<close> action leaves \<open>isInvalidated\<close> false and \<open>error\<close> null, whether
  it comes from the public \<open>setData\<close> (manual) or from the retryer's \<open>onSuccess\<close> after a
  fetch that returned data.
\<close>

theorem success_clears_invalidation_and_error:
  "isInvalidated (reducer env nm revertSt s (SuccessAction d updatedAt manual)) = False
   \<and> error (reducer env nm revertSt s (SuccessAction d updatedAt manual)) = None
   \<and> isInvalidated (state (snd (setData red env updater updatedAt qi))) = False
   \<and> error (state (snd (setData red env updater updatedAt qi))) = None
   \<and> isInvalidated (state (onSuccess red env (Some v) qi)) = False
   \<and> error (state (onSuccess red env (Some v) qi)) = None"
  by (simp add: Let_def setData_def setData'_def onSuccess_def dispatch_def)

theorem success_clears_invalidation_and_error_witness:
  "isInvalidated (reducer env0 None None fetchingState (SuccessAction (Some 2) None False)) = False
   \<and> error (reducer env0 None None fetchingState (SuccessAction (Some 2) None False)) = None
   \<and> isInvalidated (state (snd (setData keepNew env0 (UpdValue (Some 2)) None
        (queryInfo0\<lparr>state := fetchingState\<rparr>)))) = False"
  using success_clears_invalidation_and_error [of env0 None None fetchingState "Some 2" None False
      keepNew "UpdValue (Some 2)" "queryInfo0\<lparr>state := fetchingState\<rparr>" 2]
  by simp

section \<open>QueryInfo: dataUpdatedAt and cached data\<close>

lemma dispatch_inv:
  "neverCachedInv opts qi \<Longrightarrow> \<not> isSetStateAction a \<Longrightarrow> neverCachedInv opts (dispatch env a qi)"
  by (cases a) (auto simp: neverCachedInv_def everCached_def dispatch_def Let_def split: option.splits)

lemma onError_inv: "neverCachedInv opts qi \<Longrightarrow> neverCachedInv opts (onError env e qi)"
  by (simp add: onError_def dispatch_inv)

lemma onSuccess_inv: "neverCachedInv opts qi \<Longrightarrow> neverCachedInv opts (onSuccess red env v qi)"
  by (cases v) (simp_all add: onSuccess_def onError_inv setData'_def Let_def dispatch_inv)

lemma inv_frame [simp]:
  "neverCachedInv opts (retryer_update f1 qi) = neverCachedInv opts qi"
  "neverCachedInv opts (promise_update f2 qi) = neverCachedInv opts qi"
  "neverCachedInv opts (promiseCount_update f3 qi) = neverCachedInv opts qi"
  "neverCachedInv opts (fnCalls_update f4 qi) = neverCachedInv opts qi"
  "neverCachedInv opts (settled_update f5 qi) = neverCachedInv opts qi"
  "neverCachedInv opts (options_update f6 qi) = neverCachedInv opts qi"
  by (simp_all add: neverCachedInv_def everCached_def)

lemma applyEffect_inv: "neverCachedInv opts qi \<Longrightarrow> neverCachedInv opts (applyEffect red env eff qi)"
  by (cases eff) (simp_all add: onError_inv onSuccess_inv dispatch_inv)

lemma applyEffects_inv: "neverCachedInv opts qi \<Longrightarrow> neverCachedInv opts (applyEffects red env effs qi)"
  by (induction effs arbitrary: qi) (simp_all add: applyEffect_inv)

lemma withRetryer_inv: "neverCachedInv opts qi \<Longrightarrow> neverCachedInv opts (withRetryer red env op qi)"
  by (auto simp: withRetryer_def applyEffects_inv split: option.splits prod.splits)

lemma startFetch_inv:
  assumes a: "neverCachedInv opts qi"
  shows "neverCachedInv opts (snd (startFetch red env no fo qi))"
proof -
  define qi1 where "qi1 = (case no of None \<Rightarrow> qi | Some n \<Rightarrow> setOptions n qi)"
  define qi2 where "qi2 = qi1\<lparr>revertState := Some (state qi1)\<rparr>"
  define qi3 where "qi3 = (if fetchStatus (state qi2) = Idle
                    \<or> metaDiffers (fetchMeta (state qi2)) (metaOf fo)
                 then dispatch env (FetchAction (metaOf fo)) qi2 else qi2)"
  have 1: "neverCachedInv opts qi1"
    using a by (simp add: qi1_def setOptions_def split: option.splits)
  have 2: "neverCachedInv opts qi2"
    using 1 by (auto simp: qi2_def neverCachedInv_def everCached_def split: option.splits)
  have 3: "neverCachedInv opts qi3"
    using 2 by (simp add: qi3_def dispatch_inv)
  show ?thesis
    unfolding startFetch_def Let_def qi1_def [symmetric] qi2_def [symmetric] qi3_def [symmetric]
    by (simp add: 3 applyEffects_inv split: prod.splits)
qed

lemma fetch_inv:
  assumes a: "neverCachedInv opts qi"
  shows "neverCachedInv opts (snd (fetch red env no fo qi))"
proof -
  have c: "neverCachedInv opts (cancel red env co qi)" for co
    using a by (simp add: cancel_def withRetryer_inv)
  have r: "neverCachedInv opts (qi\<lparr>retryer := x\<rparr>)" for x
    using a by simp
  show ?thesis
    unfolding fetch_def
    by (simp add: startFetch_inv a c r split: option.splits)
qed

lemma step_inv:
  assumes a: "neverCachedInv opts qi"
  shows "neverCachedInv opts (step red qi (env, ev))"
proof (cases ev)
  case (EvFetch no fo)
  then show ?thesis using a by (simp add: fetch_inv)
next
  case (EvCancel co)
  then show ?thesis using a by (simp add: cancel_def withRetryer_inv)
next
  case EvCancelRetry
  then show ?thesis using a by simp
next
  case (EvSetData u t)
  then show ?thesis using a by (simp add: setData_def setData'_def Let_def dispatch_inv)
next
  case EvInvalidate
  then show ?thesis using a by (simp add: invalidate_def dispatch_inv)
qed (simp_all add: a withRetryer_inv)

lemma steps_inv:
  "neverCachedInv opts qi \<Longrightarrow> neverCachedInv opts (foldl (step red) qi evs)"
proof (induction evs arbitrary: qi)
  case Nil
  then show ?case by simp
next
  case (Cons ev evs)
  then show ?case by (cases ev) (simp add: step_inv)
qed

lemma initial_inv:
  "neverCachedInv opts (createQueryInfo env hash vars opts None)"
  by (auto simp: neverCachedInv_def everCached_def createQueryInfo_def spreadOptions_def
      getDefaultState_def Let_def)

lemma stamp_frame [simp]:
  "stampInv opts (retryer_update f1 qi) = stampInv opts qi"
  "stampInv opts (promise_update f2 qi) = stampInv opts qi"
  "stampInv opts (promiseCount_update f3 qi) = stampInv opts qi"
  "stampInv opts (fnCalls_update f4 qi) = stampInv opts qi"
  "stampInv opts (settled_update f5 qi) = stampInv opts qi"
  "stampInv opts (options_update f6 qi) = stampInv opts qi"
  "stampInv opts (revertState_update f7 qi) = stampInv opts qi"
  by (simp_all add: stampInv_def everCached_def)

lemma dispatch_stamp:
  assumes "stampInv opts qi" and "now env \<noteq> 0"
    and "case a of SuccessAction d t m \<Rightarrow> t \<noteq> Some 0 | ErrorAction e \<Rightarrow> notReverting e
         | SetStateAction p \<Rightarrow> False | _ \<Rightarrow> True"
  shows "stampInv opts (dispatch env a qi)"
  using assms
  by (cases a) (auto simp: stampInv_def everCached_def dispatch_def Let_def notReverting_def
      split: option.splits)

lemma applyEffect_stamp:
  assumes "stampInv opts qi" and "now env \<noteq> 0" and "plainEffect eff"
  shows "stampInv opts (applyEffect red env eff qi)"
proof (cases eff)
  case (CallOnSuccess v)
  then show ?thesis using assms
    by (cases v) (simp_all add: onSuccess_def onError_def setData'_def Let_def dispatch_stamp
        notReverting_def)
next
  case (CallOnError e)
  then show ?thesis using assms by (simp add: onError_def dispatch_stamp)
qed (use assms in \<open>simp_all add: dispatch_stamp\<close>)

lemma applyEffects_stamp:
  "stampInv opts qi \<Longrightarrow> now env \<noteq> 0 \<Longrightarrow> list_all plainEffect effs \<Longrightarrow>
   stampInv opts (applyEffects red env effs qi)"
  by (induction effs arbitrary: qi) (simp_all add: applyEffect_stamp)

lemma applyEffects_retryer [simp]: "retryer (applyEffects red env effs qi) = retryer qi"
proof (induction effs arbitrary: qi)
  case Nil
  then show ?case by simp
next
  case (Cons eff effs)
  have "retryer (applyEffect red env eff qi) = retryer qi"
    by (cases eff) (simp_all add: onSuccess_def onError_def setData'_def dispatch_def Let_def
        split: option.splits)
  with Cons show ?case by simp
qed

lemma reject_plain:
  "notReverting e \<Longrightarrow> reject e r = (r', effs) \<Longrightarrow> plainRetryer r' = plainRetryer r \<or> plainRetryer r'"
  by (auto simp: reject_def plainRetryer_def split: if_splits)

lemma reject_plain2:
  assumes "notReverting e" "plainRetryer r" "(reject e r :: 'e Retryer \<times> ('d, 'e) Effect list) = (r', effs)"
  shows "plainRetryer r' \<and> list_all plainEffect effs"
  using assms by (auto simp: reject_def plainRetryer_def split: if_splits)

lemma run_plain:
  assumes "plainRetryer r" "(run r :: 'e Retryer \<times> ('d, 'e) Effect list) = (r', effs)"
  shows "plainRetryer r' \<and> list_all plainEffect effs"
  using assms by (auto simp: run_def split: if_splits)

lemma resolve_plain:
  assumes "plainRetryer r" "(resolve v r :: 'e Retryer \<times> ('d, 'e) Effect list) = (r', effs)"
  shows "plainRetryer r' \<and> list_all plainEffect effs"
  using assms by (auto simp: resolve_def plainRetryer_def split: if_splits)

lemma retryOrReject_plain:
  assumes "notReverting e" "plainRetryer r"
    "(retryOrReject e r :: 'e Retryer \<times> ('d, 'e) Effect list) = (r', effs)"
  shows "plainRetryer r' \<and> list_all plainEffect effs"
  using assms by (auto simp: retryOrReject_def dest: reject_plain2 run_plain split: if_splits)

lemma onRejected_plain:
  assumes "notReverting e" "plainRetryer r"
    "(onRejected env config e r :: 'e Retryer \<times> ('d, 'e) Effect list) = (r', effs)"
  shows "plainRetryer r' \<and> list_all plainEffect effs"
  using assms
  by (auto simp: onRejected_def Let_def plainRetryer_def dest: reject_plain2 split: if_splits)

lemma afterSleep_plain:
  assumes "notReverting e" "plainRetryer r"
    "(afterSleep env config e r :: 'e Retryer \<times> ('d, 'e) Effect list) = (r', effs)"
  shows "plainRetryer r' \<and> list_all plainEffect effs"
  using assms
  by (auto simp: afterSleep_def pause_def plainRetryer_def dest: retryOrReject_plain split: if_splits)

lemma retryer_cancel_plain:
  assumes "notReverting (newCancelledError co :: 'e Thrown)" "plainRetryer r"
    "(retryer_cancel co r :: 'e Retryer \<times> ('d, 'e) Effect list) = (r', effs)"
  shows "plainRetryer r' \<and> list_all plainEffect effs"
  using assms
  by (auto simp: retryer_cancel_def dest: reject_plain2 split: if_splits prod.splits)

lemma retryer_continue_plain:
  assumes "plainRetryer r"
    "(retryer_continue env config r :: 'e Retryer \<times> ('d, 'e) Effect list) = (r', effs)"
  shows "plainRetryer r' \<and> list_all plainEffect effs"
proof (cases "continueFn r")
  case None
  then show ?thesis using assms by (simp add: retryer_continue_def)
next
  case (Some k)
  have p1: "plainRetryer (r\<lparr>continueFn := None\<rparr>)" by (simp add: plainRetryer_def)
  show ?thesis
  proof (cases k)
    case ThenRun
    then show ?thesis using assms Some p1
      by (auto simp: retryer_continue_def Let_def dest: run_plain split: if_splits prod.splits)
  next
    case (ThenRetry e)
    then have "notReverting e" using assms(1) Some by (simp add: plainRetryer_def)
    then show ?thesis using assms Some p1 ThenRetry
      by (auto simp: retryer_continue_def Let_def dest: retryOrReject_plain split: if_splits prod.splits)
  qed
qed

lemma withRetryer_cached:
  assumes "cachedInv opts qi" and "now env \<noteq> 0"
    and "\<And>config r r' effs. plainRetryer r \<Longrightarrow> op config r = (r', effs) \<Longrightarrow>
           plainRetryer r' \<and> list_all plainEffect effs"
  shows "cachedInv opts (withRetryer red env op qi)"
proof (cases "retryer qi")
  case None
  then show ?thesis using assms(1) by (simp add: withRetryer_def)
next
  case (Some cr)
  obtain config r where cr: "cr = (config, r)" by (cases cr)
  obtain r' effs where op: "op config r = (r', effs)" by (cases "op config r")
  have pr: "plainRetryer r" using assms(1) Some cr by (simp add: cachedInv_def)
  have ok: "plainRetryer r'" "list_all plainEffect effs" using assms(3) [OF pr op] by simp_all
  have st: "stampInv opts qi" using assms(1) by (simp add: cachedInv_def)
  have "stampInv opts (applyEffects red env effs (qi\<lparr>retryer := Some (config, r')\<rparr>))"
    using st assms(2) ok(2) by (simp add: applyEffects_stamp)
  then show ?thesis using Some cr op ok(1)
    by (simp add: withRetryer_def cachedInv_def)
qed


lemma cached_stamp: "cachedInv opts qi \<Longrightarrow> stampInv opts qi"
  by (simp add: cachedInv_def)

lemma createRetryer_plain:
  assumes "(createRetryer env config pid :: 'e Retryer \<times> ('d, 'e) Effect list) = (r, effs)"
  shows "plainRetryer r \<and> list_all plainEffect effs"
  using assms
  by (auto simp: createRetryer_def Let_def run_def pause_def plainRetryer_def split: if_splits)

lemma startFetch_cached:
  assumes a: "stampInv opts qi" and n: "now env \<noteq> 0"
  shows "cachedInv opts (snd (startFetch red env no fo qi))"
proof -
  define qi1 where "qi1 = (case no of None \<Rightarrow> qi | Some n \<Rightarrow> setOptions n qi)"
  define qi2 where "qi2 = qi1\<lparr>revertState := Some (state qi1)\<rparr>"
  define qi3 where "qi3 = (if fetchStatus (state qi2) = Idle
                    \<or> metaDiffers (fetchMeta (state qi2)) (metaOf fo)
                 then dispatch env (FetchAction (metaOf fo)) qi2 else qi2)"
  define config where "config = \<lparr>c_retry = retry (options qi3), c_retryDelay = retryDelay (options qi3),
                    c_networkMode = networkMode (options qi3)\<rparr>"
  obtain r effs where cr: "(createRetryer env config (promiseCount qi3)
      :: 'b Retryer \<times> ('a, 'b) Effect list) = (r, effs)"
    by (cases "createRetryer env config (promiseCount qi3) :: 'b Retryer \<times> ('a, 'b) Effect list")
  have ok: "plainRetryer r" "list_all plainEffect effs" using createRetryer_plain [OF cr] by simp_all
  have 1: "stampInv opts qi1"
    using a by (simp add: qi1_def setOptions_def split: option.splits)
  have 2: "stampInv opts qi2"
    using 1 by (simp add: qi2_def)
  have 3: "stampInv opts qi3"
    using 2 n by (simp add: qi3_def dispatch_stamp)
  have 4: "stampInv opts (applyEffects red env effs (qi3\<lparr>promiseCount := Suc (promiseCount qi3)\<rparr>))"
    using 3 n ok(2) by (simp add: applyEffects_stamp)
  show ?thesis
    unfolding startFetch_def Let_def qi1_def [symmetric] qi2_def [symmetric] qi3_def [symmetric]
      config_def [symmetric]
    using 4 ok(1) cr by (simp add: cachedInv_def)
qed

lemma silent_cancel_notReverting:
  "notReverting (newCancelledError (Some \<lparr>co_revert = False, co_silent = True\<rparr>))"
  by (simp add: notReverting_def newCancelledError_def)

lemma cancel_cached:
  assumes "cachedInv opts qi" and "now env \<noteq> 0"
    and "notReverting (newCancelledError co :: 'e Thrown)"
  shows "cachedInv opts (cancel red env co (qi :: ('d, 'e, 'm) QueryInfo))"
  unfolding cancel_def
  by (rule withRetryer_cached [OF assms(1,2)]) (rule retryer_cancel_plain [OF assms(3)])

lemma fetch_cached:
  assumes a: "cachedInv opts qi" and n: "now env \<noteq> 0"
  shows "cachedInv opts (snd (fetch red env no fo qi))"
proof -
  have c: "stampInv opts (cancel red env (Some \<lparr>co_revert = False, co_silent = True\<rparr>) qi)"
    by (rule cached_stamp [OF cancel_cached [OF a n silent_cancel_notReverting]])
  have r: "cachedInv opts
             (qi\<lparr>retryer := map_option (\<lambda>(config, r). (config, continueRetry r)) (retryer qi)\<rparr>)"
    using a by (auto simp: cachedInv_def continueRetry_def plainRetryer_def
        split: option.splits)
  show ?thesis
    unfolding fetch_def
    by (simp add: startFetch_cached cached_stamp [OF a] c r n split: option.splits)
qed

lemma step_cached:
  assumes a: "cachedInv opts qi" and p: "plainEvent (env, ev)"
  shows "cachedInv opts (step red qi (env, ev))"
proof (cases ev)
  case (EvFetch no fo)
  then show ?thesis using a p by (simp add: fetch_cached)
next
  case (EvFnResolved v)
  then show ?thesis using a p by (auto intro!: withRetryer_cached dest: resolve_plain)
next
  case (EvFnRejected e)
  then show ?thesis using a p by (auto intro!: withRetryer_cached dest: onRejected_plain)
next
  case (EvSleepDone e)
  then show ?thesis using a p by (auto intro!: withRetryer_cached dest: afterSleep_plain)
next
  case EvContinue
  then show ?thesis using a p by (auto intro!: withRetryer_cached dest: retryer_continue_plain)
next
  case (EvCancel co)
  then show ?thesis using a p by (simp add: cancel_cached)
next
  case EvCancelRetry
  then show ?thesis using a
    by (auto simp: cachedInv_def cancelRetry_def plainRetryer_def split: option.splits)
next
  case (EvSetData u t)
  have "stampInv opts (dispatch env (SuccessAction d t True) qi)" for d
    using a p EvSetData by (simp add: dispatch_stamp cached_stamp)
  then show ?thesis using a EvSetData
    by (simp add: setData_def setData'_def Let_def cachedInv_def dispatch_def)
next
  case EvInvalidate
  have "stampInv opts (dispatch env InvalidateAction qi)"
    using a p EvInvalidate by (simp add: dispatch_stamp cached_stamp)
  then show ?thesis using a EvInvalidate
    by (simp add: invalidate_def cachedInv_def dispatch_def)
qed

lemma steps_cached:
  "cachedInv opts qi \<Longrightarrow> list_all plainEvent evs \<Longrightarrow> cachedInv opts (foldl (step red) qi evs)"
proof (induction evs arbitrary: qi)
  case Nil
  then show ?case by simp
next
  case (Cons ev evs)
  then show ?case by (cases ev) (simp add: step_cached)
qed

lemma initial_cached:
  "now env \<noteq> 0 \<Longrightarrow> initialDataUpdatedAt opts \<noteq> Some 0 \<Longrightarrow>
   cachedInv opts (createQueryInfo env hash vars opts None)"
  by (auto simp: cachedInv_def stampInv_def everCached_def createQueryInfo_def spreadOptions_def
      getDefaultState_def Let_def split: option.splits)


text \<open>
  C9, as stated, fails: \<open>setData(7, {updatedAt: 0})\<close> on a fresh entry caches the data
  (a \<open>success\<close> action, status success) and leaves \<open>dataUpdatedAt\<close> at 0, because the
  reducer takes \<open>action.dataUpdatedAt ?? Date.now()\<close> and 0 is not nullish.
\<close>

theorem cached_data_with_zero_dataUpdatedAt:
  "dataUpdatedAt (state (step keepNew queryInfo0 (env0, EvSetData (UpdValue (Some 7)) (Some 0)))) = 0
   \<and> data (state (step keepNew queryInfo0 (env0, EvSetData (UpdValue (Some 7)) (Some 0)))) = Some 7
   \<and> status (state (step keepNew queryInfo0 (env0, EvSetData (UpdValue (Some 7)) (Some 0))))
       = Success
   \<and> everCached options0 (step keepNew queryInfo0 (env0, EvSetData (UpdValue (Some 7)) (Some 0)))"
  by (simp add: queryInfo0_def createQueryInfo_def getDefaultState_def options0_def
      spreadOptions_def setData_def setData'_def functionalUpdate_def replaceData_def keepNew_def
      dispatch_def everCached_def Let_def)

text \<open>
  C9, amended: in every state reached from the initial state of an entry by fetches,
  fetch outcomes, retries, pauses and continuations, cancellations, \<open>setData\<close> and
  \<open>invalidate\<close>, a non-zero \<open>dataUpdatedAt\<close> implies that data was successfully cached
  (initial data, or a \<open>success\<close> action); and when the clock is never 0, neither
  \<open>initialDataUpdatedAt\<close> nor any \<open>updatedAt\<close> given to \<open>setData\<close> is 0, and no
  cancellation reverts, \<open>dataUpdatedAt\<close> is 0 iff data was never successfully cached.
\<close>

theorem dataUpdatedAt_zero_iff_never_cached:
  "(dataUpdatedAt (state (foldl (step red) (createQueryInfo env hash vars opts None) evs)) \<noteq> 0
      \<longrightarrow> everCached opts (foldl (step red) (createQueryInfo env hash vars opts None) evs))
   \<and> (now env \<noteq> 0 \<and> initialDataUpdatedAt opts \<noteq> Some 0 \<and> list_all plainEvent evs
      \<longrightarrow> (dataUpdatedAt (state (foldl (step red) (createQueryInfo env hash vars opts None) evs)) = 0)
           = (\<not> everCached opts (foldl (step red) (createQueryInfo env hash vars opts None) evs)))"
proof (intro conjI impI)
  show 1: "everCached opts (foldl (step red) (createQueryInfo env hash vars opts None) evs)"
    if "dataUpdatedAt (state (foldl (step red) (createQueryInfo env hash vars opts None) evs)) \<noteq> 0"
    using steps_inv [OF initial_inv, of opts red env hash vars evs] that
    by (auto simp: neverCachedInv_def)
  assume "now env \<noteq> 0 \<and> initialDataUpdatedAt opts \<noteq> Some 0 \<and> list_all plainEvent evs"
  then have "cachedInv opts (foldl (step red) (createQueryInfo env hash vars opts None) evs)"
    by (simp add: steps_cached initial_cached)
  then have "everCached opts (foldl (step red) (createQueryInfo env hash vars opts None) evs)
      \<longrightarrow> dataUpdatedAt (state (foldl (step red) (createQueryInfo env hash vars opts None) evs)) \<noteq> 0"
    by (simp add: cachedInv_def stampInv_def)
  with 1 show "(dataUpdatedAt (state (foldl (step red) (createQueryInfo env hash vars opts None) evs)) = 0)
           = (\<not> everCached opts (foldl (step red) (createQueryInfo env hash vars opts None) evs))"
    by blast
qed

lemma fetchThenResolve_state:
  "dataUpdatedAt (state (foldl (step keepNew) (createQueryInfo env0 hash0 JUndefined options0 None)
       fetchThenResolve)) = 1000"
  by (simp add: fetchThenResolve_def createQueryInfo_def getDefaultState_def options0_def
      spreadOptions_def fetch_def startFetch_def createRetryer_def run_def canFetch_def env0_def
      dispatch_def metaDiffers_def metaOf_def withRetryer_def resolve_def onSuccess_def
      setData'_def functionalUpdate_def replaceData_def keepNew_def Let_def)

theorem dataUpdatedAt_zero_iff_never_cached_witness:
  "dataUpdatedAt (state (foldl (step keepNew) (createQueryInfo env0 hash0 JUndefined options0 None)
       fetchThenResolve)) = 1000
   \<and> everCached options0 (foldl (step keepNew) (createQueryInfo env0 hash0 JUndefined options0 None)
       fetchThenResolve)"
proof -
  have p: "now env0 \<noteq> 0 \<and> initialDataUpdatedAt options0 \<noteq> Some 0 \<and> list_all plainEvent fetchThenResolve"
    by (simp add: env0_def options0_def fetchThenResolve_def)
  show ?thesis
    using dataUpdatedAt_zero_iff_never_cached [of keepNew env0 hash0 JUndefined options0
        fetchThenResolve] p fetchThenResolve_state
    by simp
qed

section \<open>Key hashing: independence of key order\<close>

lemma map_eq_of_list_all2:
  "list_all2 (\<lambda>x y. g x = g y) xs ys \<Longrightarrow> map g xs = map g ys"
  by (induction xs ys rule: list_all2_induct) simp_all

lemma sort_keys_eq:
  assumes "distinct ks" and "distinct ks'" and "set ks = set ks'"
  shows "sort ks = sort (ks' :: string list)"
  by (rule sorted_distinct_set_unique) (simp_all add: assms)

lemma ownKeysOrder_subset: "set (ownKeysOrder ks) \<subseteq> set ks"
  by (auto simp: ownKeysOrder_def)

lemma stringify_JArr:
  "stringify (JArr xs) =
     (case collect (map stringify xs) of
        Inl e \<Rightarrow> Inl e
      | Inr ts \<Rightarrow>
          Inr (Some (''['' @ joinWith '','' (map (\<lambda>t. case t of None \<Rightarrow> ''null'' | Some u \<Rightarrow> u) ts)
                     @ '']'')))"
  by (subst stringify.simps) simp

lemma stringify_nonPlain:
  assumes "isPlainObject (JObj p props) = Inr False"
  shows "stringify (JObj p props) =
     (case collect (map (\<lambda>q. case stringify (snd q) of Inl e \<Rightarrow> Inl e | Inr t \<Rightarrow> Inr (fst q, t))
                      props) of
        Inl e \<Rightarrow> Inl e
      | Inr kts \<Rightarrow>
          Inr (Some (''{'' @ joinWith '',''
                       (concat (map (\<lambda>(k, t). case t of None \<Rightarrow> []
                                              | Some u \<Rightarrow> [quoteJSON k @ '':'' @ u]) kts))
                     @ ''}'')))"
  using assms by (subst stringify.simps) (simp add: split_def)

lemma stringify_plain:
  assumes "isPlainObject (JObj p props) = Inr True"
  shows "stringify (JObj p props) =
     (case collect (map (\<lambda>k. case stringify (valueAt props k) of Inl e \<Rightarrow> Inl e
                              | Inr t \<Rightarrow> Inr (k, t))
                      (ownKeysOrder (filter (\<lambda>k. k \<noteq> ''__proto__'') (sort (map fst props))))) of
        Inl e \<Rightarrow> Inl e
      | Inr kts \<Rightarrow>
          Inr (Some (''{'' @ joinWith '',''
                       (concat (map (\<lambda>(k, t). case t of None \<Rightarrow> []
                                              | Some u \<Rightarrow> [quoteJSON k @ '':'' @ u]) kts))
                     @ ''}'')))"
  using assms by (subst stringify.simps) (simp add: sortedCopy_def comp_def)

lemma reorderEq_stringify: "reorderEq v w \<Longrightarrow> stringify v = stringify w"
proof (induction rule: reorderEq.induct)
  case (same v)
  show ?case by simp
next
  case (arrays xs ys)
  then have "list_all2 (\<lambda>x y. stringify x = stringify y) xs ys"
    by (rule list_all2_mono) simp
  then have "map stringify xs = map stringify ys"
    by (rule map_eq_of_list_all2)
  then show ?case
    by (simp add: stringify_JArr)
next
  case (nonPlain p props props')
  from nonPlain(3)
  have "list_all2 (\<lambda>q q'. (case stringify (snd q) of Inl e \<Rightarrow> Inl e | Inr t \<Rightarrow> Inr (fst q, t))
                         = (case stringify (snd q') of Inl e \<Rightarrow> Inl e | Inr t \<Rightarrow> Inr (fst q', t)))
          props props'"
    by (rule list_all2_mono) (auto split: sum.splits)
  then have "map (\<lambda>q. case stringify (snd q) of Inl e \<Rightarrow> Inl e | Inr t \<Rightarrow> Inr (fst q, t)) props
           = map (\<lambda>q. case stringify (snd q) of Inl e \<Rightarrow> Inl e | Inr t \<Rightarrow> Inr (fst q, t)) props'"
    by (rule map_eq_of_list_all2)
  then show ?case
    by (simp add: stringify_nonPlain [OF nonPlain(1)] stringify_nonPlain [OF nonPlain(2)])
next
  case (plain p props p' props')
  have keys: "sort (map fst props) = sort (map fst props')"
    using plain.hyps(3-5) by (rule sort_keys_eq)
  define K where "K = ownKeysOrder (filter (\<lambda>k. k \<noteq> ''__proto__'') (sort (map fst props')))"
  have sub: "set K \<subseteq> set (map fst props)"
    using ownKeysOrder_subset [of "filter (\<lambda>k. k \<noteq> ''__proto__'') (sort (map fst props'))"]
      plain.hyps(5)
    by (auto simp: K_def)
  have eq: "map (\<lambda>k. case stringify (valueAt props k) of Inl e \<Rightarrow> Inl e | Inr t \<Rightarrow> Inr (k, t)) K
        = map (\<lambda>k. case stringify (valueAt props' k) of Inl e \<Rightarrow> Inl e | Inr t \<Rightarrow> Inr (k, t)) K"
  proof (rule map_cong [OF refl])
    fix k assume "k \<in> set K"
    then have "k \<in> set (map fst props)" using sub by blast
    then have "stringify (valueAt props k) = stringify (valueAt props' k)"
      using plain.IH by blast
    then show "(case stringify (valueAt props k) of Inl e \<Rightarrow> Inl e | Inr t \<Rightarrow> Inr (k, t))
        = (case stringify (valueAt props' k) of Inl e \<Rightarrow> Inl e | Inr t \<Rightarrow> Inr (k, t))"
      by simp
  qed
  show ?case
    unfolding stringify_plain [OF plain.hyps(1)] stringify_plain [OF plain.hyps(2)] keys
      K_def [symmetric] eq
    by (rule refl)
qed

lemma reorderEq_undefined: "reorderEq v w \<Longrightarrow> (v = JUndefined) = (w = JUndefined)"
  by (erule reorderEq.cases) simp_all

lemma literal_plain:
  assumes "''constructor'' \<notin> set (map fst props)"
  shows "isPlainObject (JObj ObjectPrototype props) = Inr True"
proof -
  have "map_of props ''constructor'' = None"
    using assms by (simp add: map_of_eq_None_iff)
  then show ?thesis by (simp add: constructorOf_def)
qed

text \<open>
  C4, as stated, fails for plain objects that \<open>isPlainObject\<close> does not recognise. The
  object literals \<open>{constructor: 1, a: 2}\<close> and \<open>{a: 2, constructor: 1}\<close> differ in the
  order of their keys only; \<open>isPlainObject\<close> reads their own \<open>constructor\<close> property,
  finds no prototype object under it and answers false, so the replacer leaves them
  unsorted and the two hashes differ. For \<open>{constructor: null}\<close> \<open>isPlainObject\<close> throws
  a \<open>TypeError\<close>, and so does \<open>hashKey\<close>.
\<close>

theorem own_constructor_keeps_key_order:
  "isPlainObject objCA = Inr False
   \<and> hashKey (getFullKey ''todos'' objCA)
       = Inr (Some (''['' @ quoteJSON ''todos'' @ '',{'' @ quoteJSON ''constructor'' @ '':1,''
                    @ quoteJSON ''a'' @ '':2}]''))
   \<and> hashKey (getFullKey ''todos'' objAC)
       = Inr (Some (''['' @ quoteJSON ''todos'' @ '',{'' @ quoteJSON ''a'' @ '':2,''
                    @ quoteJSON ''constructor'' @ '':1}]''))
   \<and> hashKey (getFullKey ''todos'' objCA) \<noteq> hashKey (getFullKey ''todos'' objAC)
   \<and> hashKey (getFullKey ''todos'' objCNull) = Inl TypeError"
  by code_simp

text \<open>
  C4, amended. For every key and every two values of the variables that are equal up to
  reordering, at any depth, of the keys of the objects that \<open>isPlainObject\<close> holds of,
  \<open>hashKey\<close> of the full key gives the same result: the same string, or the same
  exception. \<open>isPlainObject\<close> holds of every object literal that has no property
  \<open>constructor\<close> of its own.
\<close>

theorem hashKey_key_order_independent:
  assumes "reorderEq vars vars'"
  shows "hashKey (getFullKey k vars) = hashKey (getFullKey k vars')
         \<and> (''constructor'' \<notin> set (map fst props) \<longrightarrow>
              isPlainObject (JObj ObjectPrototype props) = Inr True)"
proof -
  have s: "stringify vars = stringify vars'"
    using assms by (rule reorderEq_stringify)
  have u: "(vars = JUndefined) = (vars' = JUndefined)"
    using assms by (rule reorderEq_undefined)
  show ?thesis
    using s u literal_plain [of props]
    by (simp add: hashKey_def getFullKey_def stringify_JArr)
qed

lemma objBA_reorderEq_objAB: "reorderEq objBA objAB"
proof -
  have inner: "reorderEq (JObj ObjectPrototype [(''y'', JNull), (''x'', JArr [JBool True])])
                 (JObj ObjectPrototype [(''x'', JArr [JBool True]), (''y'', JNull)])"
    by (rule reorderEq.plain) (auto simp: valueAt_def constructorOf_def intro: reorderEq.same)
  show ?thesis
    unfolding objBA_def objAB_def
    by (rule reorderEq.plain) (auto simp: valueAt_def constructorOf_def intro: reorderEq.same inner)
qed

theorem hashKey_key_order_independent_witness:
  "hashKey (getFullKey ''todos'' objBA) = hashKey (getFullKey ''todos'' objAB)
   \<and> hashKey (getFullKey ''todos'' objAB)
       = Inr (Some (''['' @ quoteJSON ''todos'' @ '',{'' @ quoteJSON ''a'' @ '':{'' @ quoteJSON ''x''
               @ '':[true],'' @ quoteJSON ''y'' @ '':null},'' @ quoteJSON ''b'' @ '':2}]''))
   \<and> isPlainObject objBA = Inr True"
proof -
  have "hashKey (getFullKey ''todos'' objAB)
       = Inr (Some (''['' @ quoteJSON ''todos'' @ '',{'' @ quoteJSON ''a'' @ '':{'' @ quoteJSON ''x''
               @ '':[true],'' @ quoteJSON ''y'' @ '':null},'' @ quoteJSON ''b'' @ '':2}]''))"
    by code_simp
  then show ?thesis
    using hashKey_key_order_independent [OF objBA_reorderEq_objAB, of "''todos''"
        "[(''b'', JNum 2), (''a'', JObj ObjectPrototype [(''y'', JNull), (''x'', JArr [JBool True])])]"]
    by (simp add: objBA_def)
qed

section \<open>De/rehydration: round trip and the skip rule\<close>

lemma get_append_new:
  "h \<notin> set (map fst queries) \<Longrightarrow> get (queries @ [(h, qi)]) h = Some qi"
  by (induction queries) (auto simp: get_def)

lemma hydrateQuery_new:
  assumes "dq_queryHash dq \<notin> set (map fst queries)"
  shows "hydrateQuery env client defaults queries dq =
           queries @ [(dq_queryHash dq,
                       createQueryInfo env (dq_queryHash dq) (o_variables (hydrateOptions defaults dq))
                         (defaultQueryOptions client (hydrateOptions defaults dq))
                         (Some ((dq_state dq)\<lparr>fetchStatus := Idle\<rparr>)))]"
proof -
  have "get queries (dq_queryHash dq) = None"
    using assms by (simp add: get_def map_of_eq_None_iff)
  then show ?thesis
    by (simp add: hydrateQuery_def build_def Let_def hydrateOptions_def)
qed

lemma hydrate_all_new:
  assumes "distinct (map dq_queryHash dqs)"
    and "set (map dq_queryHash dqs) \<inter> set (map fst queries) = {}"
  shows "foldl (hydrateQuery env client defaults) queries dqs =
           queries @ map (\<lambda>dq. (dq_queryHash dq,
                       createQueryInfo env (dq_queryHash dq) (o_variables (hydrateOptions defaults dq))
                         (defaultQueryOptions client (hydrateOptions defaults dq))
                         (Some ((dq_state dq)\<lparr>fetchStatus := Idle\<rparr>)))) dqs"
  using assms
proof (induction dqs arbitrary: queries)
  case Nil
  then show ?case by simp
next
  case (Cons dq dqs)
  have new: "dq_queryHash dq \<notin> set (map fst queries)"
    using Cons.prems(2) by auto
  have d: "distinct (map dq_queryHash dqs)"
    using Cons.prems(1) by simp
  have disj: "set (map dq_queryHash dqs)
      \<inter> set (map fst (hydrateQuery env client defaults queries dq)) = {}"
    using Cons.prems by (auto simp: hydrateQuery_new [OF new])
  show ?case
    using Cons.IH [OF d disj] by (simp add: hydrateQuery_new [OF new])
qed

lemma dehydrate_hashes:
  assumes "wellFormedStore queries"
  shows "distinct (map dq_queryHash (dehydrate queries f))"
  using assms
proof (induction queries)
  case Nil
  then show ?case by (simp add: dehydrate_def getAll_def)
next
  case (Cons hq queries)
  obtain h qi where hq: "hq = (h, qi)" by (cases hq)
  have wf: "wellFormedStore queries"
    using Cons.prems by (simp add: wellFormedStore_def)
  have sub: "set (map dq_queryHash (dehydrate queries f)) \<subseteq> set (map fst queries)"
    using wf by (force simp: dehydrate_def getAll_def wellFormedStore_def dehydrateQuery_def
        list_all_iff Let_def split: if_splits)
  have "dehydrate (hq # queries) f = dehydrate queries f
      \<or> dehydrate (hq # queries) f = dehydrateQuery qi # dehydrate queries f"
    by (simp add: dehydrate_def getAll_def hq Let_def)
  moreover have "dq_queryHash (dehydrateQuery qi) \<notin> set (map fst queries)"
    using Cons.prems by (simp add: wellFormedStore_def hq dehydrateQuery_def)
  ultimately show ?case
    using Cons.IH [OF wf] sub by auto
qed

lemma dehydrate_member:
  assumes "qi \<in> set (getAll queries)" and "status (state qi) = Success"
    and "\<not> isGeneratedKey (key (query (options qi)))"
  shows "dehydrateQuery qi \<in> set (dehydrate queries None)"
  using assms by (auto simp: dehydrate_def defaultShouldDehydrateQuery_def)

text \<open>
  C5, as stated, fails twice. An entry in success state whose key was generated
  (\<open>$q$1\<close>) is not serialised, so it is absent after the restore; and a serialised entry
  is skipped also when the live entry under its hash has the same \<open>dataUpdatedAt\<close>,
  which is not newer.
\<close>

theorem generated_key_not_restored_and_equal_stamp_skipped:
  "status (state generatedEntry) = Success
   \<and> get (hydrate env0 client0 options0 []
             (Some (dehydrate [(hashGenerated, generatedEntry)] None)))
        hashGenerated = None
   \<and> dataUpdatedAt (state liveEntry) = dataUpdatedAt (dq_state (dehydrateQuery liveEntry))
   \<and> hydrateQuery env0 client0 options0 [(hash0, liveEntry)]
        ((dehydrateQuery liveEntry)\<lparr>dq_state := (state liveEntry)\<lparr>data := Some 2\<rparr>\<rparr>)
       = [(hash0, liveEntry)]"
  by (simp add: generatedEntry_def liveEntry_def hydrate_def dehydrate_def getAll_def
      isGeneratedKey_def get_def hydrateQuery_def dehydrateQuery_def Let_def queryInfo0_def
      createQueryInfo_def fetchingState_def snapshotState_def)

text \<open>
  C5, amended. Restoring the serialisation of a well-formed cache into an empty cache:
  every entry that was in success state and whose key is not a generated one is there
  under its hash, with the serialised state except that \<open>fetchStatus\<close> is idle, so with
  identical data. Restoring one serialised entry into any cache leaves the cache as it
  was exactly when a live entry under the same hash has a \<open>dataUpdatedAt\<close> that is not
  older than the serialised one.
\<close>

theorem hydrate_round_trip_and_skip:
  "(wellFormedStore queries \<and> qi \<in> set (getAll queries) \<and> status (state qi) = Success
      \<and> \<not> isGeneratedKey (key (query (options qi)))
    \<longrightarrow> (\<exists>qi'. get (hydrate env client defaults [] (Some (dehydrate queries None))) (queryHash qi)
                  = Some qi'
              \<and> state qi' = (state qi)\<lparr>fetchStatus := Idle\<rparr>
              \<and> data (state qi') = data (state qi)
              \<and> fetchStatus (state qi') = Idle))
   \<and> ((hydrateQuery env client defaults live dq = live)
        = (\<exists>q. get live (dq_queryHash dq) = Some q
               \<and> dataUpdatedAt (dq_state dq) \<le> dataUpdatedAt (state q)))"
proof (intro conjI impI)
  assume a: "wellFormedStore queries \<and> qi \<in> set (getAll queries) \<and> status (state qi) = Success
      \<and> \<not> isGeneratedKey (key (query (options qi)))"
  define mk where "mk = (\<lambda>dq :: ('a, 'b, 'c) DehydratedQuery. (dq_queryHash dq,
                       createQueryInfo env (dq_queryHash dq) (o_variables (hydrateOptions defaults dq))
                         (defaultQueryOptions client (hydrateOptions defaults dq))
                         (Some ((dq_state dq)\<lparr>fetchStatus := Idle\<rparr>))))"
  have d: "distinct (map dq_queryHash (dehydrate queries None))"
    using a by (simp add: dehydrate_hashes)
  have h: "hydrate env client defaults [] (Some (dehydrate queries None))
             = map mk (dehydrate queries None)"
    using hydrate_all_new [OF d, of "[]" env client defaults] by (simp add: hydrate_def mk_def)
  have fst_mk: "map fst (map mk dqs) = map dq_queryHash dqs" for dqs
    by (simp add: mk_def comp_def)
  have d': "distinct (map fst (map mk (dehydrate queries None)))"
    unfolding fst_mk by (rule d)
  have m: "mk (dehydrateQuery qi) \<in> set (map mk (dehydrate queries None))"
    using a dehydrate_member [of qi queries] by simp
  have "map_of (map mk (dehydrate queries None)) (fst (mk (dehydrateQuery qi)))
          = Some (snd (mk (dehydrateQuery qi)))"
    using d' m by (intro map_of_is_SomeI) simp_all
  then have g: "get (hydrate env client defaults [] (Some (dehydrate queries None))) (queryHash qi)
          = Some (snd (mk (dehydrateQuery qi)))"
    by (simp add: get_def h mk_def dehydrateQuery_def)
  have s: "state (snd (mk (dehydrateQuery qi))) = (state qi)\<lparr>fetchStatus := Idle\<rparr>"
    by (simp add: mk_def dehydrateQuery_def createQueryInfo_def Let_def)
  show "\<exists>qi'. get (hydrate env client defaults [] (Some (dehydrate queries None))) (queryHash qi)
                  = Some qi'
              \<and> state qi' = (state qi)\<lparr>fetchStatus := Idle\<rparr>
              \<and> data (state qi') = data (state qi)
              \<and> fetchStatus (state qi') = Idle"
    using g s by simp
next
  show "(hydrateQuery env client defaults live dq = live)
        = (\<exists>q. get live (dq_queryHash dq) = Some q
               \<and> dataUpdatedAt (dq_state dq) \<le> dataUpdatedAt (state q))"
  proof (cases "get live (dq_queryHash dq)")
    case None
    then have "length (hydrateQuery env client defaults live dq) = Suc (length live)"
      by (simp add: hydrateQuery_def build_def Let_def hydrateOptions_def)
    then have "hydrateQuery env client defaults live dq \<noteq> live" by auto
    then show ?thesis using None by simp
  next
    case (Some q)
    show ?thesis
    proof (cases "dataUpdatedAt (state q) < dataUpdatedAt (dq_state dq)")
      case False
      then show ?thesis using Some by (simp add: hydrateQuery_def Let_def)
    next
      case True
      define q' where "q' = setState env (wholeState ((dq_state dq)\<lparr>fetchStatus := Idle\<rparr>)) q"
      have st: "dataUpdatedAt (state q') = dataUpdatedAt (dq_state dq)"
        by (simp add: q'_def setState_def dispatch_def spreadState_def wholeState_def)
      have "get (replaceEntry live (dq_queryHash dq) q') (dq_queryHash dq) = Some q'"
        using Some by (induction live) (auto simp: get_def replaceEntry_def split: if_splits)
      then have "replaceEntry live (dq_queryHash dq) q' \<noteq> live"
        using Some st True by auto
      then show ?thesis using Some True
        by (simp add: hydrateQuery_def Let_def q'_def)
    qed
  qed
qed

theorem hydrate_round_trip_and_skip_witness:
  "map_option state
     (get (hydrate env0 client0 options0 [] (Some (dehydrate [(hash0, liveEntry)] None))) hash0)
     = Some (snapshotState\<lparr>fetchStatus := Idle\<rparr>)
   \<and> hydrateQuery env0 client0 options0 [(hash0, liveEntry)] (dehydrateQuery liveEntry)
       = [(hash0, liveEntry)]"
proof -
  have wf: "wellFormedStore [(hash0, liveEntry)]"
    by (simp add: wellFormedStore_def liveEntry_def queryInfo0_def createQueryInfo_def Let_def)
  have mem: "liveEntry \<in> set (getAll [(hash0, liveEntry)])"
    by (simp add: getAll_def)
  have ok: "status (state liveEntry) = Success"
    by (simp add: liveEntry_def snapshotState_def fetchingState_def)
  have named: "\<not> isGeneratedKey (key (query (options liveEntry)))"
    by (simp add: isGeneratedKey_def liveEntry_def queryInfo0_def createQueryInfo_def
        spreadOptions_def options0_def query0_def Let_def)
  have h: "queryHash liveEntry = hash0" and st: "state liveEntry = snapshotState"
    by (simp_all add: liveEntry_def queryInfo0_def createQueryInfo_def Let_def)
  have live: "\<exists>q. get [(hash0, liveEntry)] (dq_queryHash (dehydrateQuery liveEntry)) = Some q
               \<and> dataUpdatedAt (dq_state (dehydrateQuery liveEntry)) \<le> dataUpdatedAt (state q)"
    by (simp add: get_def dehydrateQuery_def h)
  show ?thesis
    using hydrate_round_trip_and_skip [of "[(hash0, liveEntry)]" liveEntry env0 client0 options0
        "[(hash0, liveEntry)]" "dehydrateQuery liveEntry"] wf mem ok named live
    by (auto simp: h st)
qed

section \<open>MutationInfo: the order of callbacks, dispatch and settlement\<close>

lemma awaitAll_noneThrows:
  "noneThrows cbs s \<Longrightarrow> awaitAll cbs s = (configured cbs, None)"
  by (induction cbs s rule: awaitAll.induct) (auto simp: noneThrows_def configured_def)

lemma callsOf_append: "callsOf (xs @ ys) = callsOf xs @ callsOf ys"
  by (induction xs rule: callsOf.induct) simp_all

lemma callsOf_map_Call: "callsOf (map Call cs) = cs"
  by (induction cs) simp_all

lemma no_terminal_in_calls:
  "list_all (\<lambda>ev. \<not> isTerminalDispatch ev \<and> \<not> isSettle ev) (map Call cs)"
  by (induction cs) simp_all

lemma trigger_events_Inl:
  "fst (trigger config opts v (Inl err) s)
     = (if m_status s = Mutating then [] else [Dispatch (MutatingAction (Some v))])
       @ fst (catchBlock config opts err v
                (if m_status s = Mutating then s else mutationReducer s (MutatingAction (Some v))))"
  by (cases "m_status s = Mutating") (simp_all add: trigger_def Let_def split: prod.splits)

lemma trigger_events_Inr:
  assumes "awaitAll (successCallbacks config opts d v)
             (if m_status s = Mutating then s else mutationReducer s (MutatingAction (Some v)))
           = (called, thrown)"
  shows "fst (trigger config opts v (Inr d) s)
     = (if m_status s = Mutating then [] else [Dispatch (MutatingAction (Some v))])
       @ map Call called
       @ (case thrown of
            None \<Rightarrow> [Dispatch (MSuccessAction d), Settle (Inr d)]
          | Some e \<Rightarrow> fst (catchBlock config opts e v
                (if m_status s = Mutating then s else mutationReducer s (MutatingAction (Some v)))))"
  using assms
  by (cases "m_status s = Mutating"; cases thrown)
     (simp_all add: trigger_def Let_def split: prod.splits)

lemma catchBlock_events:
  "fst (catchBlock config opts err v s)
     = map Call (fst (awaitAll (errorCallbacks config opts err v) s))
       @ [Dispatch (MErrorAction err),
          Settle (Inl (case snd (awaitAll (errorCallbacks config opts err v) s) of
                         None \<Rightarrow> err | Some e \<Rightarrow> e))]"
  by (simp add: catchBlock_def Let_def split: prod.splits)

text \<open>
  C7, as stated, fails: after a successful mutation, an instance \<open>onSettled\<close> that throws
  sends \<open>trigger\<close> into its \<open>catch\<close> block, so the error callbacks run after the settled
  callbacks, the settled callbacks run a second time, and the mutation ends in error.
\<close>

theorem onSettled_throws_after_success:
  "callsOf (fst (trigger registryCallbacks throwingCallbacks () (Inr 5) getDefaultMutationState))
     = [RegistryOnSuccess, InstanceOnSuccess, RegistryOnSettled, InstanceOnSettled,
        RegistryOnError, InstanceOnError, RegistryOnSettled, InstanceOnSettled]
   \<and> m_status (snd (trigger registryCallbacks throwingCallbacks () (Inr 5) getDefaultMutationState))
     = MError"
  by (simp add: trigger_def catchBlock_def successCallbacks_def errorCallbacks_def
      registryCallbacks_def throwingCallbacks_def getDefaultMutationState_def Let_def)

text \<open>
  C7, amended. Whatever the callbacks do, \<open>trigger\<close> ends with the dispatch of the
  terminal action followed by the settling of its promise, and every callback call comes
  before these two. When the mutation succeeded and no configured success-phase
  callback throws, the calls are, in this order and as far as configured, registry
  \<open>onSuccess\<close>, instance \<open>onSuccess\<close>, registry \<open>onSettled\<close>, instance \<open>onSettled\<close>, and the
  terminal action is success; when the mutation failed and no configured error-phase
  callback throws, they are registry \<open>onError\<close>, instance \<open>onError\<close>, registry
  \<open>onSettled\<close>, instance \<open>onSettled\<close>, and the terminal action is the error.
\<close>

theorem trigger_callback_order:
  "(\<exists>before terminal result.
       fst (trigger config opts v outcome s) = before @ [Dispatch terminal, Settle result]
       \<and> isTerminalDispatch (Dispatch terminal)
       \<and> list_all (\<lambda>ev. \<not> isTerminalDispatch ev \<and> \<not> isSettle ev) before
       \<and> callsOf before = callsOf (fst (trigger config opts v outcome s)))
   \<and> (\<forall>d. outcome = Inr d
          \<and> noneThrows (successCallbacks config opts d v)
               (if m_status s = Mutating then s else mutationReducer s (MutatingAction (Some v)))
        \<longrightarrow> callsOf (fst (trigger config opts v outcome s))
              = configured (successCallbacks config opts d v)
            \<and> (\<exists>before. fst (trigger config opts v outcome s)
                            = before @ [Dispatch (MSuccessAction d), Settle (Inr d)]))
   \<and> (\<forall>err. outcome = Inl err
          \<and> noneThrows (errorCallbacks config opts err v)
               (if m_status s = Mutating then s else mutationReducer s (MutatingAction (Some v)))
        \<longrightarrow> callsOf (fst (trigger config opts v outcome s))
              = configured (errorCallbacks config opts err v)
            \<and> (\<exists>before. fst (trigger config opts v outcome s)
                            = before @ [Dispatch (MErrorAction err), Settle (Inl err)]))"
proof (intro conjI allI impI)
  define s0 where "s0 = (if m_status s = Mutating then s else mutationReducer s (MutatingAction (Some v)))"
  define started :: "('a, 'b, 'c) TriggerEvent list"
    where "started = (if m_status s = Mutating then [] else [Dispatch (MutatingAction (Some v))])"
  have started_ok: "list_all (\<lambda>ev. \<not> isTerminalDispatch ev \<and> \<not> isSettle ev) started"
    and started_calls: "callsOf started = []"
    by (simp_all add: started_def)
  have catch: "\<exists>called thrown. fst (catchBlock config opts e v s0)
                 = map Call called @ [Dispatch (MErrorAction e), Settle (Inl thrown)]" for e
    unfolding catchBlock_events by blast
  have shape: "\<exists>called terminal result.
      fst (trigger config opts v outcome s) = (started @ map Call called) @ [Dispatch terminal, Settle result]
      \<and> isTerminalDispatch (Dispatch terminal)"
  proof (cases outcome)
    case (Inl err)
    from catch [of err] obtain called thrown where
      "fst (catchBlock config opts err v s0)
         = map Call called @ [Dispatch (MErrorAction err), Settle (Inl thrown)]" by blast
    then have "fst (trigger config opts v outcome s)
         = (started @ map Call called) @ [Dispatch (MErrorAction err), Settle (Inl thrown)]"
      unfolding Inl trigger_events_Inl s0_def [symmetric] started_def [symmetric] by simp
    then show ?thesis by (intro exI [of _ called] exI [of _ "MErrorAction err"] exI) simp
  next
    case (Inr d)
    obtain called thrown where aw: "awaitAll (successCallbacks config opts d v) s0 = (called, thrown)"
      by (cases "awaitAll (successCallbacks config opts d v) s0")
    note ev = trigger_events_Inr [OF aw [unfolded s0_def], folded s0_def started_def]
    show ?thesis
    proof (cases thrown)
      case None
      then have "fst (trigger config opts v outcome s)
         = (started @ map Call called) @ [Dispatch (MSuccessAction d), Settle (Inr d)]"
        unfolding Inr ev by simp
      then show ?thesis by (intro exI [of _ called] exI [of _ "MSuccessAction d"] exI) simp
    next
      case (Some e)
      from catch [of e] obtain called' thrown' where
        "fst (catchBlock config opts e v s0)
           = map Call called' @ [Dispatch (MErrorAction e), Settle (Inl thrown')]" by blast
      then have "fst (trigger config opts v outcome s)
         = (started @ map Call (called @ called')) @ [Dispatch (MErrorAction e), Settle (Inl thrown')]"
        unfolding Inr ev Some by simp
      then show ?thesis
        by (intro exI [of _ "called @ called'"] exI [of _ "MErrorAction e"] exI) simp
    qed
  qed
  then obtain called terminal result where sh:
    "fst (trigger config opts v outcome s) = (started @ map Call called) @ [Dispatch terminal, Settle result]"
    "isTerminalDispatch (Dispatch terminal)" by blast
  have "list_all (\<lambda>ev. \<not> isTerminalDispatch ev \<and> \<not> isSettle ev) (started @ map Call called)"
    using started_ok no_terminal_in_calls [of called] by simp
  moreover have "callsOf (started @ map Call called) = callsOf (fst (trigger config opts v outcome s))"
    by (simp add: sh(1) callsOf_append)
  ultimately show "\<exists>before terminal result.
       fst (trigger config opts v outcome s) = before @ [Dispatch terminal, Settle result]
       \<and> isTerminalDispatch (Dispatch terminal)
       \<and> list_all (\<lambda>ev. \<not> isTerminalDispatch ev \<and> \<not> isSettle ev) before
       \<and> callsOf before = callsOf (fst (trigger config opts v outcome s))"
    using sh by blast
next
  fix d
  assume a: "outcome = Inr d
          \<and> noneThrows (successCallbacks config opts d v)
               (if m_status s = Mutating then s else mutationReducer s (MutatingAction (Some v)))"
  then have aw: "awaitAll (successCallbacks config opts d v)
               (if m_status s = Mutating then s else mutationReducer s (MutatingAction (Some v)))
             = (configured (successCallbacks config opts d v), None)"
    by (simp add: awaitAll_noneThrows)
  have t: "fst (trigger config opts v outcome s)
        = (if m_status s = Mutating then [] else [Dispatch (MutatingAction (Some v))])
          @ map Call (configured (successCallbacks config opts d v))
          @ [Dispatch (MSuccessAction d), Settle (Inr d)]"
    using a trigger_events_Inr [OF aw] by simp
  show "callsOf (fst (trigger config opts v outcome s)) = configured (successCallbacks config opts d v)"
    by (simp add: t callsOf_append callsOf_map_Call)
  show "\<exists>before. fst (trigger config opts v outcome s)
                            = before @ [Dispatch (MSuccessAction d), Settle (Inr d)]"
    using t by (metis append.assoc)
next
  fix err
  assume a: "outcome = Inl err
          \<and> noneThrows (errorCallbacks config opts err v)
               (if m_status s = Mutating then s else mutationReducer s (MutatingAction (Some v)))"
  then have aw: "awaitAll (errorCallbacks config opts err v)
               (if m_status s = Mutating then s else mutationReducer s (MutatingAction (Some v)))
             = (configured (errorCallbacks config opts err v), None)"
    by (simp add: awaitAll_noneThrows)
  have t: "fst (trigger config opts v outcome s)
        = (if m_status s = Mutating then [] else [Dispatch (MutatingAction (Some v))])
          @ map Call (configured (errorCallbacks config opts err v))
          @ [Dispatch (MErrorAction err), Settle (Inl err)]"
    using a by (simp add: trigger_events_Inl catchBlock_events aw)
  show "callsOf (fst (trigger config opts v outcome s)) = configured (errorCallbacks config opts err v)"
    by (simp add: t callsOf_append callsOf_map_Call)
  show "\<exists>before. fst (trigger config opts v outcome s)
                            = before @ [Dispatch (MErrorAction err), Settle (Inl err)]"
    using t by (metis append.assoc)
qed

theorem trigger_callback_order_witness:
  "callsOf (fst (trigger registryCallbacks quietCallbacks () (Inr 5) getDefaultMutationState))
     = [RegistryOnSuccess, InstanceOnSuccess, RegistryOnSettled, InstanceOnSettled]
   \<and> callsOf (fst (trigger registryCallbacks quietCallbacks () (Inl 7) getDefaultMutationState))
     = [RegistryOnError, RegistryOnSettled, InstanceOnSettled]"
proof -
  have ok: "noneThrows (successCallbacks registryCallbacks quietCallbacks 5 ()) s0"
    and ok': "noneThrows (errorCallbacks registryCallbacks quietCallbacks 7 ()) s0" for s0
    by (simp_all add: noneThrows_def successCallbacks_def errorCallbacks_def registryCallbacks_def
        quietCallbacks_def)
  have c: "configured (successCallbacks registryCallbacks quietCallbacks 5 ())
             = [RegistryOnSuccess, InstanceOnSuccess, RegistryOnSettled, InstanceOnSettled]"
    and c': "configured (errorCallbacks registryCallbacks quietCallbacks 7 ())
             = [RegistryOnError, RegistryOnSettled, InstanceOnSettled]"
    by (simp_all add: configured_def successCallbacks_def errorCallbacks_def registryCallbacks_def
        quietCallbacks_def)
  show ?thesis
    using trigger_callback_order [of registryCallbacks quietCallbacks "()" "Inr 5"
        getDefaultMutationState]
      trigger_callback_order [of registryCallbacks quietCallbacks "()" "Inl 7"
        getDefaultMutationState]
      ok ok'
    by (simp add: c c')
qed

section \<open>Infinite queries: where a refetch stops\<close>















section \<open>Observable queries: the selector\<close>














end
